theory Spec2Isabelle
  imports Main "HOL-Library.AList"
begin

section \<open>JavaScript values and the coercions the resolvers rely on\<close>

text \<open>
  The citation engine of \<^verbatim>\<open>dynamic-citations.js\<close> is dynamically typed: a citation field
  such as \<^verbatim>\<open>cite.stat.volume\<close> is a string when it comes out of the citation parser and a
  number when it was built from a ledger entry, and the code leans on the coercions of
  \<^verbatim>\<open>==\<close>, \<^verbatim>\<open><=\<close>, \<^verbatim>\<open>"" + x\<close> and \<^verbatim>\<open>parseInt\<close>.  The values that occur are
  modelled by \<open>jsval\<close>.  Numbers are mathematical integers (the ledger's volumes, pages and
  congress numbers; exact in JavaScript below \<open>2^53\<close>); \<open>JNaN\<close> is the number NaN and
  \<open>JObject\<close> an object whose contents are never inspected.
\<close>

datatype jsval = JUndefined | JNull | JNaN | JBool bool | JNum int | JStr string | JObject

definition digit_char :: "nat \<Rightarrow> char" where
  "digit_char d = ''0123456789'' ! d"

fun nat_to_string :: "nat \<Rightarrow> string" where
  "nat_to_string n =
     (if n < 10 then [digit_char n] else nat_to_string (n div 10) @ [digit_char (n mod 10)])"

declare nat_to_string.simps [simp del]

text \<open>\<^verbatim>\<open>"" + n\<close> for an integer \<open>n\<close>: its decimal numeral.\<close>

definition int_to_string :: "int \<Rightarrow> string" where
  "int_to_string i = (if i < 0 then CHR ''-'' # nat_to_string (nat (- i)) else nat_to_string (nat i))"

fun js_to_string :: "jsval \<Rightarrow> string" where
  "js_to_string JUndefined = ''undefined''"
| "js_to_string JNull = ''null''"
| "js_to_string JNaN = ''NaN''"
| "js_to_string (JBool b) = (if b then ''true'' else ''false'')"
| "js_to_string (JNum n) = int_to_string n"
| "js_to_string (JStr s) = s"
| "js_to_string JObject = ''[object Object]''"

definition is_digit :: "char \<Rightarrow> bool" where
  "is_digit c = (c \<in> set ''0123456789'')"

definition digit_val :: "char \<Rightarrow> nat" where
  "digit_val c = of_char c - 48"

definition digits_value :: "string \<Rightarrow> nat" where
  "digits_value ds = foldl (\<lambda>a c. 10 * a + digit_val c) 0 ds"

definition is_hex_digit :: "char \<Rightarrow> bool" where
  "is_hex_digit c = (c \<in> set ''0123456789abcdefABCDEF'')"

definition hex_val :: "char \<Rightarrow> nat" where
  "hex_val c = (if is_digit c then of_char c - 48
                else if c \<in> set ''abcdef'' then of_char c - 87 else of_char c - 55)"

definition hex_value :: "string \<Rightarrow> nat" where
  "hex_value ds = foldl (\<lambda>a c. 16 * a + hex_val c) 0 ds"

text \<open>The ASCII white space that \<^verbatim>\<open>parseInt\<close> and \<^verbatim>\<open>ToNumber\<close> skip (strings are byte
  strings here; the Unicode space characters are not modelled).\<close>

definition is_space :: "char \<Rightarrow> bool" where
  "is_space c = (c \<in> set [CHR '' '', CHR 0x09, CHR 0x0A, CHR 0x0B, CHR 0x0C, CHR 0x0D])"

text \<open>
  \<^verbatim>\<open>parseInt(s)\<close> with no radix: leading white space is skipped, a sign is read, the prefix
  \<^verbatim>\<open>0x\<close> selects radix 16, and the longest prefix of digits is the value; \<open>None\<close> is NaN.
  The value is the exact integer; the program's is the nearest double, which differs from
  \<open>2^53\<close> on.
\<close>

definition parse_int_string :: "string \<Rightarrow> int option" where
  "parse_int_string s =
     (let t = dropWhile is_space s;
          neg = (t \<noteq> [] \<and> hd t = CHR ''-'');
          u = (if t \<noteq> [] \<and> (hd t = CHR ''-'' \<or> hd t = CHR ''+'') then tl t else t);
          sgn = (if neg then - 1 else 1)
      in if take 2 u = ''0x'' \<or> take 2 u = ''0X''
         then (let ds = takeWhile is_hex_digit (drop 2 u)
               in if ds = [] then None else Some (sgn * int (hex_value ds)))
         else (let ds = takeWhile is_digit u
               in if ds = [] then None else Some (sgn * int (digits_value ds))))"

fun parseInt :: "jsval \<Rightarrow> int option" where
  "parseInt (JNum n) = Some n"
| "parseInt (JStr s) = parse_int_string s"
| "parseInt v = None"

text \<open>
  \<^verbatim>\<open>ToNumber\<close> on a string, for the literals that citation fields carry: white space is
  trimmed, the empty string is 0, and an optionally signed run of decimal digits is its
  value.  Every other string is NaN here (fractions, exponents and radix prefixes are not
  modelled: the citation parser captures runs of digits).
\<close>

definition string_to_number :: "string \<Rightarrow> int option" where
  "string_to_number s =
     (let t = rev (dropWhile is_space (rev (dropWhile is_space s)));
          neg = (t \<noteq> [] \<and> hd t = CHR ''-'');
          u = (if t \<noteq> [] \<and> (hd t = CHR ''-'' \<or> hd t = CHR ''+'') then tl t else t)
      in if t = [] then Some 0
         else if u \<noteq> [] \<and> list_all is_digit u
         then Some ((if neg then - 1 else 1) * int (digits_value u))
         else None)"

fun js_to_number :: "jsval \<Rightarrow> int option" where
  "js_to_number JUndefined = None"
| "js_to_number JNull = Some 0"
| "js_to_number JNaN = None"
| "js_to_number (JBool b) = Some (if b then 1 else 0)"
| "js_to_number (JNum n) = Some n"
| "js_to_number (JStr s) = string_to_number s"
| "js_to_number JObject = None"

text \<open>\<^verbatim>\<open>v <= n\<close> and \<^verbatim>\<open>v >= n\<close> against a number: false when \<open>v\<close> converts to NaN.\<close>

definition js_le :: "jsval \<Rightarrow> int \<Rightarrow> bool" where
  "js_le v n = (case js_to_number v of None \<Rightarrow> False | Some m \<Rightarrow> m \<le> n)"

definition js_ge :: "jsval \<Rightarrow> int \<Rightarrow> bool" where
  "js_ge v n = (case js_to_number v of None \<Rightarrow> False | Some m \<Rightarrow> m \<ge> n)"

text \<open>
  \<^verbatim>\<open>v == s\<close> for a string \<open>s\<close> (loose equality): two strings are compared as strings, a
  number or boolean against the string's numeric value, and \<^verbatim>\<open>undefined\<close>, \<^verbatim>\<open>null\<close> and
  NaN equal no string.
\<close>

fun js_eq_string :: "jsval \<Rightarrow> string \<Rightarrow> bool" where
  "js_eq_string (JStr t) s = (t = s)"
| "js_eq_string (JNum n) s = (string_to_number s = Some n)"
| "js_eq_string (JBool b) s = (string_to_number s = Some (if b then 1 else 0))"
| "js_eq_string JObject s = (s = ''[object Object]'')"
| "js_eq_string v s = False"

fun js_truthy :: "jsval \<Rightarrow> bool" where
  "js_truthy JUndefined = False"
| "js_truthy JNull = False"
| "js_truthy JNaN = False"
| "js_truthy (JBool b) = b"
| "js_truthy (JNum n) = (n \<noteq> 0)"
| "js_truthy (JStr s) = (s \<noteq> [])"
| "js_truthy JObject = True"

text \<open>An optional string property: absent is \<^verbatim>\<open>undefined\<close>.\<close>

definition opt_str :: "string option \<Rightarrow> jsval" where
  "opt_str x = (case x of None \<Rightarrow> JUndefined | Some s \<Rightarrow> JStr s)"

definition opt_num :: "int option \<Rightarrow> jsval" where
  "opt_num x = (case x of None \<Rightarrow> JUndefined | Some n \<Rightarrow> JNum n)"

section \<open>Citations, links and ledger entries\<close>

record source_rec =
  src_name :: string
  src_abbreviation :: string
  src_link :: string
  src_authoritative :: bool
  src_note :: "string option"

record link_rec =
  link_source :: source_rec
  link_landing :: "string option"
  link_pdf :: "string option"
  link_mods :: "string option"
  link_html :: "string option"

text \<open>A \<^verbatim>\<open>links\<close> object: source name to link descriptor, in insertion order.\<close>

type_synonym links = "(string \<times> link_rec) list"

text \<open>
  A sub-citation (\<^verbatim>\<open>cite.stat\<close>, \<^verbatim>\<open>cite.law\<close>, ...): its payload properties, its
  \<^verbatim>\<open>id\<close> and its \<^verbatim>\<open>links\<close> (\<open>None\<close> once \<^verbatim>\<open>delete cite.usc.links\<close> has run).
\<close>

record subcite =
  sub_fields :: "(string \<times> jsval) list"
  sub_id :: string
  sub_links :: "links option"

definition field :: "string \<Rightarrow> (string \<times> jsval) list \<Rightarrow> jsval" where
  "field k fs = (case map_of fs k of None \<Rightarrow> JUndefined | Some v \<Rightarrow> v)"

text \<open>
  A citation object.  \<open>disambiguation\<close> and \<open>parallel_citations\<close> are \<open>None\<close> when the
  object has no such property; \<open>subs\<close> holds the sub-citations under their type keys.
\<close>

datatype cite = Cite
  (cite_type: string)
  (type_name: jsval)
  (citation: jsval)
  (title: jsval)
  (disambiguation: "jsval option")
  (parallel_citations: "cite list option")
  (subs: "(string \<times> subcite) list")

fun set_type_name :: "jsval \<Rightarrow> cite \<Rightarrow> cite" where
  "set_type_name v (Cite a b c d e f g) = Cite a v c d e f g"

fun set_citation :: "jsval \<Rightarrow> cite \<Rightarrow> cite" where
  "set_citation v (Cite a b c d e f g) = Cite a b v d e f g"

fun set_title :: "jsval \<Rightarrow> cite \<Rightarrow> cite" where
  "set_title v (Cite a b c d e f g) = Cite a b c v e f g"

fun set_disambiguation :: "jsval \<Rightarrow> cite \<Rightarrow> cite" where
  "set_disambiguation v (Cite a b c d e f g) = Cite a b c d (Some v) f g"

fun set_parallel_citations :: "cite list \<Rightarrow> cite \<Rightarrow> cite" where
  "set_parallel_citations v (Cite a b c d e f g) = Cite a b c d e (Some v) g"

fun set_subs :: "(string \<times> subcite) list \<Rightarrow> cite \<Rightarrow> cite" where
  "set_subs v (Cite a b c d e f g) = Cite a b c d e f v"

text \<open>\<^verbatim>\<open>cite[k].links[name] = l\<close>, on a sub-citation that has a \<^verbatim>\<open>links\<close> object.\<close>

definition set_link :: "string \<Rightarrow> string \<Rightarrow> link_rec \<Rightarrow> cite \<Rightarrow> cite" where
  "set_link k name l c =
     set_subs (AList.map_entry k
       (\<lambda>s. s\<lparr>sub_links := map_option (AList.update name l) (sub_links s)\<rparr>) (subs c)) c"

text \<open>\<^verbatim>\<open>delete cite[k].links[name]\<close>.\<close>

definition delete_link :: "string \<Rightarrow> string \<Rightarrow> cite \<Rightarrow> cite" where
  "delete_link k name c =
     set_subs (AList.map_entry k
       (\<lambda>s. s\<lparr>sub_links := map_option (AList.delete name) (sub_links s)\<rparr>) (subs c)) c"

text \<open>\<^verbatim>\<open>delete cite[k].links\<close>.\<close>

definition delete_links :: "string \<Rightarrow> cite \<Rightarrow> cite" where
  "delete_links k c = set_subs (AList.map_entry k (\<lambda>s. s\<lparr>sub_links := None\<rparr>) (subs c)) c"

text \<open>One row of a per-volume ledger file, as \<^verbatim>\<open>yaml.safeLoad\<close> delivers it.\<close>

record ledger_item =
  item_volume :: int
  item_page :: int
  item_npages :: "int option"
  item_type :: "string option"
  item_congress :: "int option"
  item_number :: "int option"
  item_title :: "string option"
  item_topic :: "string option"
  item_file :: "string option"
  item_citation :: "string option"

text \<open>
  The citation type registry (\<^verbatim>\<open>require('./citation')\<close>) is not part of this file; the
  resolvers only call it.  It is a parameter: \<open>reg_name ty\<close> is \<^verbatim>\<open>Citation.types[ty].name\<close>,
  \<open>reg_canonical ty\<close> the optional \<^verbatim>\<open>canonical\<close> function, \<open>reg_id ty\<close> the \<^verbatim>\<open>id\<close>
  function and \<open>reg_links\<close> is \<^verbatim>\<open>Citation.getLinksForCitation\<close>.
\<close>

record registry =
  reg_name :: "string \<Rightarrow> string"
  reg_canonical :: "string \<Rightarrow> ((string \<times> jsval) list \<Rightarrow> string) option"
  reg_id :: "string \<Rightarrow> (string \<times> jsval) list \<Rightarrow> string"
  reg_links :: "string \<Rightarrow> subcite \<Rightarrow> links"

definition create_parallel_cite :: "registry \<Rightarrow> string \<Rightarrow> (string \<times> jsval) list \<Rightarrow> cite" where
  "create_parallel_cite reg ty citeobj =
     (let s0 = \<lparr>sub_fields = citeobj, sub_id = reg_id reg ty citeobj, sub_links = None\<rparr>;
          s = s0\<lparr>sub_links := Some (reg_links reg ty s0)\<rparr>
      in Cite ty (JStr (reg_name reg ty))
           (case reg_canonical reg ty of None \<Rightarrow> JNull | Some f \<Rightarrow> JStr (f citeobj))
           (field ''title'' citeobj) None None [(ty, s)])"

section \<open>The outside world\<close>

text \<open>
  What the resolvers read from outside: the ledger files, and the answers of the remote
  services.  Each is a parameter, and every failure the code can meet is a value.
\<close>

datatype js_error = TypeError | LedgerReadError

text \<open>An XML text node as \<^verbatim>\<open>xml2js\<close> delivers it: a string, or an element object whose
  text (if any) is under \<^verbatim>\<open>_\<close>.\<close>

datatype xml_text = XString string | XElement "string option"

text \<open>
  A \<^verbatim>\<open>law\<close> or \<^verbatim>\<open>bill\<close> element as \<^verbatim>\<open>xml2js\<close> delivers it: an object with its
  attributes under \<^verbatim>\<open>$\<close>, or, for an element without attributes, a bare string, on which
  \<^verbatim>\<open>$\<close> is undefined.
\<close>

datatype xml_element = Attrs "(string \<times> string) list" | NoAttrs

text \<open>One \<^verbatim>\<open>extension\<close> block of a MODS document; \<open>ext_law\<close> and \<open>ext_bill\<close> are its
  first \<^verbatim>\<open>law\<close> and \<^verbatim>\<open>bill\<close> element.\<close>

record mods_extension =
  ext_law :: "xml_element option"
  ext_bill :: "xml_element option"
  ext_shortTitle :: "xml_text option"
  ext_searchTitle :: "xml_text option"

text \<open>The outcome of fetching and parsing a MODS document: in both failures
  \<^verbatim>\<open>result\<close> is not an object; \<open>ModsDocument None\<close> is a document without
  \<^verbatim>\<open>mods.extension\<close>.\<close>

datatype mods_response =
  ModsTransportError | ModsParseError | ModsDocument "mods_extension list option"

record bill_rec =
  bill_title_without_number :: jsval
  bill_congress :: jsval
  bill_number :: jsval
  bill_title :: jsval

text \<open>\<open>JsonFailed\<close>: no body, or \<^verbatim>\<open>JSON.parse\<close> threw, or the document is \<^verbatim>\<open>null\<close>.\<close>

datatype json_response = JsonFailed | JsonBill bill_rec

text \<open>
  One entry of \<^verbatim>\<open>results\<close>.  \<open>case_citation\<close> is \<open>None\<close> when the entry has no
  \<^verbatim>\<open>citation\<close> property (or \<^verbatim>\<open>null\<close>): indexing it throws.
\<close>

record case_result =
  case_caseName :: jsval
  case_court :: jsval
  case_citation :: "jsval list option"
  case_absolute_url :: jsval

text \<open>\<open>ClNoResponse\<close>: a transport error or an empty body; \<open>ClUnparsable\<close>:
  \<^verbatim>\<open>JSON.parse\<close> threw or the document has no \<^verbatim>\<open>results\<close> (reading its length
  throws).  \<open>ClResults\<close> is the array \<^verbatim>\<open>results\<close>; an entry \<open>None\<close> is \<^verbatim>\<open>null\<close>.\<close>

datatype cl_response = ClNoResponse | ClUnparsable | ClResults "case_result option list"

record credentials =
  cred_username :: jsval
  cred_password :: jsval

record env =
  env_courtlistener :: "credentials option"

text \<open>
  \<open>read_ledger\<close> is \<^verbatim>\<open>yaml.safeLoad(fs.readFileSync(path))\<close> (\<open>None\<close>: the call throws);
  \<open>get_mods\<close> the MODS fetch; \<open>get_status\<close> the status code of a GET without redirects and
  \<open>get_final_url\<close> the address a GET ends at (\<open>None\<close>: no response object);
  \<open>get_bill_json\<close> the bill record; \<open>search_courtlistener\<close> the authenticated search;
  \<open>url_query\<close> is \<^verbatim>\<open>url.parse(s).query\<close>.
\<close>

record world =
  read_ledger :: "string \<Rightarrow> ledger_item list option"
  get_mods :: "string option \<Rightarrow> mods_response"
  get_status :: "string \<Rightarrow> int option"
  get_final_url :: "string \<Rightarrow> string option"
  get_bill_json :: "string \<Rightarrow> json_response"
  search_courtlistener :: "string \<Rightarrow> jsval \<times> jsval \<Rightarrow> cl_response"
  url_query :: "string \<Rightarrow> string option"

text \<open>
  A resolver either delivers the possibly mutated citation and its new citations, or an
  exception escapes it (\<open>Inl\<close>): thrown into the orchestrator, or thrown inside an I/O
  callback so that the resolver's callback is never invoked.
\<close>

type_synonym resolved = "js_error + (cite \<times> cite list)"

section \<open>Ledger lookup and \<^verbatim>\<open>explode\<close>\<close>

definition pad :: "jsval \<Rightarrow> nat \<Rightarrow> string" where
  "pad n width =
     (let s = js_to_string n
      in if length s \<ge> width then s else replicate (width - length s) CHR ''0'' @ s)"

definition ledger_path :: "jsval \<Rightarrow> string" where
  "ledger_path v = ''legisworks-historical-statutes/data/'' @ pad v 3 @ ''.yaml''"

text \<open>\<^verbatim>\<open>item.npages && parseInt(page) >= item.page && parseInt(page) < item.page + item.npages\<close>\<close>

definition spans_page :: "ledger_item \<Rightarrow> jsval \<Rightarrow> bool" where
  "spans_page item pg =
     (case item_npages item of
        None \<Rightarrow> False
      | Some n \<Rightarrow> n \<noteq> 0 \<and>
          (case parseInt pg of
             None \<Rightarrow> False
           | Some p \<Rightarrow> p \<ge> item_page item \<and> p < item_page item + n))"

text \<open>\<^verbatim>\<open>("" + item.page) == cite.stat.page\<close>\<close>

definition is_start_page :: "subcite \<Rightarrow> ledger_item \<Rightarrow> bool" where
  "is_start_page st item =
     js_eq_string (field ''page'' (sub_fields st)) (int_to_string (item_page item))"

text \<open>The \<^verbatim>\<open>body.forEach\<close> of \<^verbatim>\<open>get_from_legisworks\<close>, with its two early returns.\<close>

fun collect_matches :: "subcite \<Rightarrow> ledger_item list \<Rightarrow> ledger_item list \<Rightarrow> ledger_item list" where
  "collect_matches st [] matches = matches"
| "collect_matches st (item # body) matches =
     (if \<not> js_eq_string (field ''volume'' (sub_fields st)) (int_to_string (item_volume item))
      then collect_matches st body matches
      else if \<not> (is_start_page st item \<or> spans_page item (field ''page'' (sub_fields st)))
      then collect_matches st body matches
      else collect_matches st body (matches @ [item]))"

text \<open>\<^verbatim>\<open>item.title || item.topic\<close>\<close>

definition title_or_topic :: "ledger_item \<Rightarrow> jsval" where
  "title_or_topic item =
     (if js_truthy (opt_str (item_title item)) then opt_str (item_title item)
      else opt_str (item_topic item))"

definition legisworks_source :: "string option \<Rightarrow> source_rec" where
  "legisworks_source nt =
     \<lparr>src_name = ''Legisworks'', src_abbreviation = ''Legisworks'',
      src_link = ''https://github.com/unitedstates/legisworks-historical-statutes'',
      src_authoritative = False, src_note = nt\<rparr>"

definition legisworks_link :: "ledger_item \<Rightarrow> string option \<Rightarrow> link_rec" where
  "legisworks_link item nt =
     \<lparr>link_source = legisworks_source nt, link_landing = None,
      link_pdf = Some (''https://govtrackus.s3.amazonaws.com/legislink/pdf/stat/''
                   @ int_to_string (item_volume item) @ ''/'' @ js_to_string (opt_str (item_file item))),
      link_mods = None, link_html = None\<rparr>"

text \<open>The body of \<^verbatim>\<open>matches.map\<close>: the candidate built for one matching entry, \<open>n\<close> being
  \<^verbatim>\<open>matches.length\<close>.\<close>

definition make_candidate :: "registry \<Rightarrow> subcite \<Rightarrow> nat \<Rightarrow> ledger_item \<Rightarrow> cite" where
  "make_candidate reg st n item =
     (let c = create_parallel_cite reg ''stat''
                [(''volume'', field ''volume'' (sub_fields st)), (''page'', field ''page'' (sub_fields st))];
          c = set_title (title_or_topic item) c;
          c = set_citation
                (JStr (int_to_string (item_volume item) @ '' Stat. '' @ int_to_string (item_page item))) c;
          c = (if n > 1 then set_disambiguation (opt_str (item_citation item)) c else c);
          c = set_link ''stat'' ''legisworks''
                (legisworks_link item
                   (if \<not> is_start_page st item
                    then Some (''Link is to an internal page within a statute beginning on page ''
                               @ int_to_string (item_page item) @ ''.'')
                    else None)) c
      in if js_ge (opt_num (item_congress item)) 38 \<and> js_eq_string (opt_str (item_type item)) ''publaw''
         then (let cc = create_parallel_cite reg ''law''
                          [(''congress'', opt_num (item_congress item)), (''type'', JStr ''public''),
                           (''number'', opt_num (item_number item))];
                   cc = set_title (title_or_topic item) cc
               in set_parallel_citations [cc] c)
         else c)"

definition get_from_legisworks :: "registry \<Rightarrow> world \<Rightarrow> cite \<Rightarrow> js_error + cite list" where
  "get_from_legisworks reg w c =
     (case map_of (subs c) ''stat'' of
        None \<Rightarrow> Inl TypeError
      | Some st \<Rightarrow>
          (case read_ledger w (ledger_path (field ''volume'' (sub_fields st))) of
             None \<Rightarrow> Inl LedgerReadError
           | Some body \<Rightarrow>
               (let matches = collect_matches st body []
                in Inr (rev (map (make_candidate reg st (length matches)) matches)))))"

definition explode :: "registry \<Rightarrow> world \<Rightarrow> cite \<Rightarrow> env \<Rightarrow> js_error + cite list" where
  "explode reg w c e =
     (case map_of (subs c) ''stat'' of
        None \<Rightarrow> Inr [c]
      | Some st \<Rightarrow>
          if js_le (field ''volume'' (sub_fields st)) 64 then get_from_legisworks reg w c
          else Inr [c])"

section \<open>The metadata-document resolver\<close>

text \<open>
  The state of the \<^verbatim>\<open>extension.forEach\<close> of \<^verbatim>\<open>get_from_usgpo_mods\<close>: the citations found
  (\<^verbatim>\<open>cites\<close>), the keys of \<^verbatim>\<open>seen_cites\<close>, and the citation being adorned (only its
  title changes).  Identifiers are taken not to be names of \<^verbatim>\<open>Object.prototype\<close>
  properties, which \<^verbatim>\<open>in\<close> would also find.
\<close>

record mods_state =
  ms_cites :: "cite list"
  ms_seen :: "string list"
  ms_cite :: cite

text \<open>How one block of the callback ends: with \<^verbatim>\<open>return\<close>, or by falling through.\<close>

datatype 'a flow = Returned 'a | Continue 'a

definition attr :: "string \<Rightarrow> (string \<times> string) list \<Rightarrow> jsval" where
  "attr k elem = opt_str (map_of elem k)"

text \<open>The number \<^verbatim>\<open>parseInt\<close> returns, as a value.\<close>

definition parsed :: "int option \<Rightarrow> jsval" where
  "parsed x = (case x of None \<Rightarrow> JNaN | Some n \<Rightarrow> JNum n)"

text \<open>\<^verbatim>\<open>c[ty].id\<close>, read as a property name; it is only taken of citations that
  \<open>create_parallel_cite\<close> has just built for the type \<open>ty\<close>.\<close>

definition sub_id_of :: "string \<Rightarrow> cite \<Rightarrow> string" where
  "sub_id_of ty c = (case map_of (subs c) ty of None \<Rightarrow> js_to_string JUndefined | Some s \<Rightarrow> sub_id s)"

definition to_lower :: "char \<Rightarrow> char" where
  "to_lower c = (if c \<in> set ''ABCDEFGHIJKLMNOPQRSTUVWXYZ'' then char_of (of_char c + (32::nat)) else c)"

definition law_cite :: "registry \<Rightarrow> (string \<times> string) list \<Rightarrow> cite" where
  "law_cite reg elem =
     create_parallel_cite reg ''law''
       [(''congress'', parsed (parseInt (attr ''congress'' elem))),
        (''type'', JStr (if js_eq_string (attr ''isPrivate'' elem) ''true''
                         then ''private'' else ''public'')),
        (''number'', parsed (parseInt (attr ''number'' elem)))]"

text \<open>The block \<^verbatim>\<open>if (extension.law) { ... }\<close>: reading \<^verbatim>\<open>elem.congress\<close> throws when
  the element has no attribute object.\<close>

definition law_block :: "registry \<Rightarrow> mods_extension \<Rightarrow> mods_state \<Rightarrow> js_error + mods_state flow" where
  "law_block reg extension st =
     (case ext_law extension of
        None \<Rightarrow> Inr (Continue st)
      | Some NoAttrs \<Rightarrow> Inl TypeError
      | Some (Attrs elem) \<Rightarrow>
          (let c = law_cite reg elem
           in if sub_id_of ''law'' c \<in> set (ms_seen st) then Inr (Returned st)
              else Inr (Continue (st\<lparr>ms_cites := ms_cites st @ [c],
                                     ms_seen := ms_seen st @ [sub_id_of ''law'' c]\<rparr>))))"

text \<open>The bill citation of a \<^verbatim>\<open>bill\<close> element whose \<^verbatim>\<open>type\<close> attribute is \<open>ty\<close>.\<close>

definition bill_cite :: "registry \<Rightarrow> (string \<times> string) list \<Rightarrow> string \<Rightarrow> cite" where
  "bill_cite reg elem ty =
     create_parallel_cite reg ''us_bill''
       [(''is_enacted'', JBool True),
        (''congress'', parsed (parseInt (attr ''congress'' elem))),
        (''bill_type'', JStr (map to_lower ty)),
        (''number'', parsed (parseInt (attr ''number'' elem)))]"

text \<open>The block \<^verbatim>\<open>if (extension.bill) { ... }\<close>: reading \<^verbatim>\<open>elem.priority\<close> throws when
  the element has no attribute object, and \<^verbatim>\<open>elem.type.toLowerCase()\<close> throws when a
  primary bill has no \<^verbatim>\<open>type\<close> attribute.\<close>

definition bill_block :: "registry \<Rightarrow> mods_extension \<Rightarrow> mods_state \<Rightarrow> js_error + mods_state flow" where
  "bill_block reg extension st =
     (case ext_bill extension of
        None \<Rightarrow> Inr (Continue st)
      | Some NoAttrs \<Rightarrow> Inl TypeError
      | Some (Attrs elem) \<Rightarrow>
          if js_eq_string (attr ''priority'' elem) ''primary''
          then (case map_of elem ''type'' of
                  None \<Rightarrow> Inl TypeError
                | Some ty \<Rightarrow>
                    (let c = bill_cite reg elem ty
                     in if sub_id_of ''us_bill'' c \<in> set (ms_seen st) then Inr (Returned st)
                        else Inr (Continue (st\<lparr>ms_cites := ms_cites st @ [c],
                                                 ms_seen := ms_seen st @ [sub_id_of ''us_bill'' c]\<rparr>))))
          else Inr (Continue st))"

definition title_block :: "mods_extension \<Rightarrow> mods_state \<Rightarrow> mods_state" where
  "title_block extension st =
     (case ext_shortTitle extension of
        Some elem \<Rightarrow>
          (case elem of
             XString t \<Rightarrow> st\<lparr>ms_cite := set_title (JStr t) (ms_cite st)\<rparr>
           | XElement (Some t) \<Rightarrow> st\<lparr>ms_cite := set_title (JStr t) (ms_cite st)\<rparr>
           | XElement None \<Rightarrow> st)
      | None \<Rightarrow>
          (case ext_searchTitle extension of
             Some (XString t) \<Rightarrow> st\<lparr>ms_cite := set_title (JStr t) (ms_cite st)\<rparr>
           | Some (XElement x) \<Rightarrow> st\<lparr>ms_cite := set_title JObject (ms_cite st)\<rparr>
           | None \<Rightarrow> st))"

text \<open>The callback of \<^verbatim>\<open>result.mods.extension.forEach\<close>, for one block.\<close>

definition process_extension :: "registry \<Rightarrow> mods_extension \<Rightarrow> mods_state \<Rightarrow> js_error + mods_state" where
  "process_extension reg extension st =
     (if cite_type (ms_cite st) = ''stat'' \<or> cite_type (ms_cite st) = ''law''
      then (case law_block reg extension st of
              Inl err \<Rightarrow> Inl err
            | Inr (Returned st1) \<Rightarrow> Inr st1
            | Inr (Continue st1) \<Rightarrow>
                (case bill_block reg extension st1 of
                   Inl err \<Rightarrow> Inl err
                 | Inr (Returned st2) \<Rightarrow> Inr st2
                 | Inr (Continue st2) \<Rightarrow> Inr (title_block extension st2)))
      else Inr (title_block extension st))"

fun process_extensions :: "registry \<Rightarrow> mods_extension list \<Rightarrow> mods_state \<Rightarrow> js_error + mods_state" where
  "process_extensions reg [] st = Inr st"
| "process_extensions reg (extension # rest) st =
     (case process_extension reg extension st of
        Inl err \<Rightarrow> Inl err
      | Inr st1 \<Rightarrow> process_extensions reg rest st1)"

definition get_from_usgpo_mods :: "registry \<Rightarrow> world \<Rightarrow> cite \<Rightarrow> string option \<Rightarrow> resolved" where
  "get_from_usgpo_mods reg w c mods_url =
     (case get_mods w mods_url of
        ModsTransportError \<Rightarrow> Inr (c, [])
      | ModsParseError \<Rightarrow> Inr (c, [])
      | ModsDocument None \<Rightarrow> Inr (c, [])
      | ModsDocument (Some extensions) \<Rightarrow>
          (case process_extensions reg extensions \<lparr>ms_cites = [], ms_seen = [], ms_cite = c\<rparr> of
             Inl err \<Rightarrow> Inl err
           | Inr st \<Rightarrow> Inr (ms_cite st, ms_cites st)))"

section \<open>The landing-page resolver\<close>

definition is_lower :: "char \<Rightarrow> bool" where
  "is_lower c = (c \<in> set ''abcdefghijklmnopqrstuvwxyz'')"

definition is_line_terminator :: "char \<Rightarrow> bool" where
  "is_line_terminator c = (c = CHR 0x0A \<or> c = CHR 0x0D)"

text \<open>
  The regular expression
  \<^verbatim>\<open>/^https:\/\/www.govtrack.us\/congress\/bills\/(\d+)\/([a-z]+)(\d+)$/\<close> on an ASCII
  address; the two unescaped dots match any character but a line terminator.  The result is
  the second group, the bill type.
\<close>

definition match_bill_url :: "string \<Rightarrow> string option" where
  "match_bill_url u =
     (if take 11 u = ''https://www'' \<and> length u > 11 \<and> \<not> is_line_terminator (u ! 11)
         \<and> take 8 (drop 12 u) = ''govtrack'' \<and> length u > 20 \<and> \<not> is_line_terminator (u ! 20)
         \<and> take 18 (drop 21 u) = ''us/congress/bills/''
      then (let r = drop 39 u; r1 = dropWhile is_digit r
            in if takeWhile is_digit r \<noteq> [] \<and> r1 \<noteq> [] \<and> hd r1 = CHR ''/''
               then (let r2 = tl r1; ty = takeWhile is_lower r2; r3 = dropWhile is_lower r2
                     in if ty \<noteq> [] \<and> r3 \<noteq> [] \<and> list_all is_digit r3 then Some ty else None)
               else None)
      else None)"

definition get_from_govtrack_search :: "registry \<Rightarrow> world \<Rightarrow> cite \<Rightarrow> string \<Rightarrow> bool \<Rightarrow> resolved" where
  "get_from_govtrack_search reg w c landing is_enacted =
     (case get_final_url w landing of
        None \<Rightarrow> Inl TypeError
      | Some u \<Rightarrow>
          (case match_bill_url u of
             None \<Rightarrow> Inr (c, [])
           | Some bill_type \<Rightarrow>
               (case get_bill_json w (u @ ''.json'') of
                  JsonFailed \<Rightarrow> Inr (c, [])
                | JsonBill bill \<Rightarrow>
                    (let c1 = set_title (bill_title_without_number bill) c;
                         b = create_parallel_cite reg ''us_bill''
                               [(''is_enacted'', JBool is_enacted),
                                (''congress'', parsed (parseInt (bill_congress bill))),
                                (''bill_type'', JStr bill_type),
                                (''number'', parsed (parseInt (bill_number bill))),
                                (''title'', bill_title bill)]
                     in Inr (delete_link ''law'' ''govtrack'' c1, [b])))))"

section \<open>The ledger cross-reference resolver\<close>

text \<open>The object literal \<^verbatim>\<open>volume_map\<close>, key by key as the source lists it.\<close>

definition volume_map_literal :: "(int \<times> int list) list" where
  "volume_map_literal =
     [(60, [35]), (61, [36]), (62, [37]), (63, [38]), (64, [39]), (65, [40]), (66, [41]),
      (67, [42]), (68, [43]), (69, [44]),
      (70, [45]), (71, [46]), (72, [47]), (73, [48]), (74, [49]), (75, [50]), (75, [51, 52]),
      (76, [53, 54]), (77, [55, 56]),
      (78, [57, 58]), (79, [59, 60]), (80, [61, 62]), (81, [63, 64])]"

text \<open>
  \<^verbatim>\<open>volume_map[k]\<close>: property names are strings, the key is converted with
  \<^verbatim>\<open>ToString\<close>, and of two bindings of one name in an object literal the later one stays.
\<close>

definition volume_map :: "jsval \<Rightarrow> int list option" where
  "volume_map k =
     map_of (rev (map (\<lambda>(n, vs). (int_to_string n, vs)) volume_map_literal)) (js_to_string k)"

text \<open>The callback of the inner \<^verbatim>\<open>body.forEach\<close>, on the citation and the list
  \<^verbatim>\<open>parallel_cites\<close>.\<close>

definition publaw_item :: "registry \<Rightarrow> ledger_item \<Rightarrow> cite \<times> cite list \<Rightarrow> js_error + cite \<times> cite list" where
  "publaw_item reg item st =
     (case map_of (subs (fst st)) ''law'' of
        None \<Rightarrow> Inl TypeError
      | Some law \<Rightarrow>
          if \<not> js_eq_string (field ''congress'' (sub_fields law)) (js_to_string (opt_num (item_congress item)))
          then Inr st
          else if \<not> js_eq_string (field ''number'' (sub_fields law)) (js_to_string (opt_num (item_number item)))
          then Inr st
          else if js_eq_string (field ''type'' (sub_fields law)) ''public''
                  \<and> \<not> js_eq_string (opt_str (item_type item)) ''publaw''
          then Inr st
          else if js_eq_string (field ''type'' (sub_fields law)) ''private''
          then Inr st
          else (case sub_links law of
                  None \<Rightarrow> Inl TypeError
                | Some ls \<Rightarrow>
                    Inr (set_link ''law'' ''legisworks'' (legisworks_link item None)
                           (set_title (title_or_topic item) (fst st)),
                         snd st @ [create_parallel_cite reg ''stat''
                                     [(''volume'', JNum (item_volume item)),
                                      (''page'', JNum (item_page item))]])))"

fun publaw_items :: "registry \<Rightarrow> ledger_item list \<Rightarrow> cite \<times> cite list \<Rightarrow> js_error + cite \<times> cite list" where
  "publaw_items reg [] st = Inr st"
| "publaw_items reg (item # body) st =
     (case publaw_item reg item st of
        Inl err \<Rightarrow> Inl err
      | Inr st1 \<Rightarrow> publaw_items reg body st1)"

text \<open>The outer \<^verbatim>\<open>forEach\<close> over the volumes of the congress.\<close>

fun publaw_volumes :: "registry \<Rightarrow> world \<Rightarrow> int list \<Rightarrow> cite \<times> cite list \<Rightarrow> js_error + cite \<times> cite list" where
  "publaw_volumes reg w [] st = Inr st"
| "publaw_volumes reg w (volume # rest) st =
     (case read_ledger w (ledger_path (JNum volume)) of
        None \<Rightarrow> Inl LedgerReadError
      | Some body \<Rightarrow>
          (case publaw_items reg body st of
             Inl err \<Rightarrow> Inl err
           | Inr st1 \<Rightarrow> publaw_volumes reg w rest st1))"

definition get_from_legisworks_publaw :: "registry \<Rightarrow> world \<Rightarrow> cite \<Rightarrow> resolved" where
  "get_from_legisworks_publaw reg w c =
     (case map_of (subs c) ''law'' of
        None \<Rightarrow> Inl TypeError
      | Some law \<Rightarrow>
          (case volume_map (field ''congress'' (sub_fields law)) of
             None \<Rightarrow> Inr (c, [])
           | Some volumes \<Rightarrow> publaw_volumes reg w volumes (c, [])))"

section \<open>The case-search resolver\<close>

definition courtlistener_link :: "jsval \<Rightarrow> link_rec" where
  "courtlistener_link absolute_url =
     \<lparr>link_source = \<lparr>src_name = ''Court Listener'', src_abbreviation = ''CL'',
                      src_link = ''https://www.courtlistener.com'',
                      src_authoritative = False, src_note = None\<rparr>,
      link_landing = Some (''https://www.courtlistener.com'' @ js_to_string absolute_url),
      link_pdf = None, link_mods = None, link_html = None\<rparr>"

text \<open>The address of the search request: the API prefix and \<^verbatim>\<open>url.parse(landing).query\<close>.\<close>

definition search_url :: "world \<Rightarrow> string \<Rightarrow> string" where
  "search_url w landing =
     ''https://www.courtlistener.com/api/rest/v3/search/?''
       @ js_to_string (case url_query w landing of None \<Rightarrow> JNull | Some q \<Rightarrow> JStr q)"

text \<open>\<^verbatim>\<open>xs[0]\<close>\<close>

definition first_or_undefined :: "jsval list \<Rightarrow> jsval" where
  "first_or_undefined xs = (case xs of [] \<Rightarrow> JUndefined | x # rest \<Rightarrow> x)"

text \<open>
  Reading \<^verbatim>\<open>cite.reporter.links.courtlistener\<close> throws when the reporter part or its
  \<^verbatim>\<open>links\<close> is missing, and \<^verbatim>\<open>url.parse\<close> throws on a link without \<^verbatim>\<open>landing\<close>; both
  happen outside the \<^verbatim>\<open>try\<close>.  Inside it every exception is caught and ends in
  \<^verbatim>\<open>callback([])\<close>, with what had been assigned before it left in place: for a single
  result, \<^verbatim>\<open>cases[0].caseName\<close> throws on \<^verbatim>\<open>null\<close> before anything is written, and
  \<^verbatim>\<open>cases[0].citation[0]\<close> throws on a missing citation list after the title and the type
  name have been written.
\<close>

definition get_from_courtlistener_search :: "world \<Rightarrow> cite \<Rightarrow> env \<Rightarrow> resolved" where
  "get_from_courtlistener_search w c e =
     (case map_of (subs c) ''reporter'' of
        None \<Rightarrow> Inl TypeError
      | Some reporter \<Rightarrow>
          (case sub_links reporter of
             None \<Rightarrow> Inl TypeError
           | Some ls \<Rightarrow>
               (case map_of ls ''courtlistener'' of
                  None \<Rightarrow> Inr (c, [])
                | Some lnk \<Rightarrow>
                    (case env_courtlistener e of
                       None \<Rightarrow> Inr (c, [])
                     | Some cred \<Rightarrow>
                         (case link_landing lnk of
                            None \<Rightarrow> Inl TypeError
                          | Some landing \<Rightarrow>
                              (case search_courtlistener w (search_url w landing)
                                      (cred_username cred, cred_password cred) of
                                 ClNoResponse \<Rightarrow> Inr (c, [])
                               | ClUnparsable \<Rightarrow> Inr (c, [])
                               | ClResults cases \<Rightarrow>
                                   if length cases = 0 then Inr (c, [])
                                   else if length cases = 1
                                   then (case hd cases of
                                           None \<Rightarrow> Inr (c, [])
                                         | Some r \<Rightarrow>
                                             (let c1 = set_type_name (case_court r)
                                                         (set_title (case_caseName r) c)
                                              in case case_citation r of
                                                   None \<Rightarrow> Inr (c1, [])
                                                 | Some cs \<Rightarrow>
                                                     Inr (set_link ''reporter'' ''courtlistener''
                                                            (courtlistener_link (case_absolute_url r))
                                                            (set_citation (first_or_undefined cs) c1),
                                                          [])))
                                   else Inr (c, [])))))))"

section \<open>The fetchers and \<^verbatim>\<open>add_parallel_citations\<close>\<close>

type_synonym fetcher = "registry \<Rightarrow> world \<Rightarrow> subcite \<Rightarrow> cite \<Rightarrow> env \<Rightarrow> resolved"

text \<open>The fetchers for \<^verbatim>\<open>stat\<close>, \<^verbatim>\<open>cfr\<close> and \<^verbatim>\<open>fedreg\<close> have one body.  Reading
  \<^verbatim>\<open>links.usgpo\<close> of a part without \<^verbatim>\<open>links\<close> throws; the US Code fetcher alone tests
  \<^verbatim>\<open>usc.links\<close> first.  In the US Code and the landing-page resolver the request callback
  reads the response object without testing \<^verbatim>\<open>error\<close>, so a transport failure throws there.\<close>

definition fetch_usgpo :: fetcher where
  "fetch_usgpo reg w sub c e =
     (case sub_links sub of
        None \<Rightarrow> Inl TypeError
      | Some ls \<Rightarrow>
          (case map_of ls ''usgpo'' of
             Some lnk \<Rightarrow> get_from_usgpo_mods reg w c (link_mods lnk)
           | None \<Rightarrow> Inr (c, [])))"

definition fetch_stat :: fetcher where
  "fetch_stat = fetch_usgpo"

definition fetch_law :: fetcher where
  "fetch_law reg w law c e =
     (case sub_links law of
        None \<Rightarrow> Inl TypeError
      | Some ls \<Rightarrow>
          (case map_of ls ''usgpo'' of
             Some lnk \<Rightarrow> get_from_usgpo_mods reg w c (link_mods lnk)
           | None \<Rightarrow>
               if js_ge (field ''congress'' (sub_fields law)) 60 \<and> js_le (field ''congress'' (sub_fields law)) 81
               then get_from_legisworks_publaw reg w c
               else (case map_of ls ''govtrack'' of
                       None \<Rightarrow> Inr (c, [])
                     | Some g \<Rightarrow>
                         if js_truthy (opt_str (link_landing g))
                         then get_from_govtrack_search reg w c (js_to_string (opt_str (link_landing g))) True
                         else Inr (c, []))))"

definition fetch_usc :: fetcher where
  "fetch_usc reg w usc c e =
     (case sub_links usc of
        None \<Rightarrow> Inr (c, [])
      | Some ls \<Rightarrow>
          (case map_of ls ''house'' of
             None \<Rightarrow> Inr (c, [])
           | Some house \<Rightarrow>
               if js_truthy (opt_str (link_html house))
               then (case get_status w (js_to_string (opt_str (link_html house))) of
                       None \<Rightarrow> Inl TypeError
                     | Some status \<Rightarrow>
                         Inr (if status \<noteq> 200 then delete_links ''usc'' c else c, []))
               else Inr (c, [])))"

definition fetch_cfr :: fetcher where
  "fetch_cfr = fetch_usgpo"

definition fetch_fedreg :: fetcher where
  "fetch_fedreg = fetch_usgpo"

definition fetch_reporter :: fetcher where
  "fetch_reporter reg w reporter c e = get_from_courtlistener_search w c e"

text \<open>The table \<^verbatim>\<open>fetchers\<close>, in the order of its keys.\<close>

definition fetchers :: "(string \<times> fetcher) list" where
  "fetchers =
     [(''stat'', fetch_stat), (''law'', fetch_law), (''usc'', fetch_usc),
      (''cfr'', fetch_cfr), (''fedreg'', fetch_fedreg), (''reporter'', fetch_reporter)]"

text \<open>
  \<^verbatim>\<open>async.forEachOf(fetchers, ...)\<close>.  The fetchers are started in key order and their
  callbacks run one at a time; this model completes them in key order.  A fetcher whose key
  is not in the citation is skipped; an exception that escapes one fetcher means the final
  callback never delivers \<^verbatim>\<open>new_citations\<close>.
\<close>

fun run_fetchers ::
  "(string \<times> fetcher) list \<Rightarrow> registry \<Rightarrow> world \<Rightarrow> env \<Rightarrow> cite \<Rightarrow> cite list \<Rightarrow> resolved" where
  "run_fetchers [] reg w e c new_citations = Inr (c, new_citations)"
| "run_fetchers ((k, fetcher_function) # rest) reg w e c new_citations =
     (case map_of (subs c) k of
        None \<Rightarrow> run_fetchers rest reg w e c new_citations
      | Some sub \<Rightarrow>
          (case fetcher_function reg w sub c e of
             Inl err \<Rightarrow> Inl err
           | Inr (c1, new_cites) \<Rightarrow> run_fetchers rest reg w e c1 (new_citations @ new_cites)))"

definition add_parallel_citations :: "registry \<Rightarrow> world \<Rightarrow> cite \<Rightarrow> env \<Rightarrow> resolved" where
  "add_parallel_citations reg w c e = run_fetchers fetchers reg w e c []"

section \<open>Notions used to state the properties\<close>

text \<open>The two tests of the ledger loop taken together: the entry is pushed onto
  \<^verbatim>\<open>matches\<close> exactly when this holds.\<close>

definition page_span_match :: "subcite \<Rightarrow> ledger_item \<Rightarrow> bool" where
  "page_span_match st item =
     (js_eq_string (field ''volume'' (sub_fields st)) (int_to_string (item_volume item))
      \<and> (is_start_page st item \<or> spans_page item (field ''page'' (sub_fields st))))"

text \<open>
  The match of a ledger entry as the specification words it, on a queried volume and page
  that are integers: the volumes are equal, and the page is the entry's start page or lies
  in \<open>[page, page + npages)\<close> when \<open>npages\<close> is set.
\<close>

definition entry_matches :: "int \<Rightarrow> int \<Rightarrow> ledger_item \<Rightarrow> bool" where
  "entry_matches volume page entry =
     (item_volume entry = volume
      \<and> (item_page entry = page
          \<or> (case item_npages entry of
                None \<Rightarrow> False
              | Some n \<Rightarrow> item_page entry \<le> page \<and> page < item_page entry + n)))"

text \<open>An integer handed to the code as a number or as its decimal numeral.\<close>

definition integer_query :: "jsval \<Rightarrow> int \<Rightarrow> bool" where
  "integer_query v n = (v = JNum n \<or> v = JStr (int_to_string n))"


text \<open>The payload property \<^verbatim>\<open>cite[k][f]\<close>.\<close>

definition payload :: "string \<Rightarrow> string \<Rightarrow> cite \<Rightarrow> jsval" where
  "payload k f c = (case map_of (subs c) k of None \<Rightarrow> JUndefined | Some s \<Rightarrow> field f (sub_fields s))"








text \<open>The new citations of type \<open>ty\<close> whose identifier is \<open>x\<close>.\<close>

definition cites_with_id :: "string \<Rightarrow> string \<Rightarrow> cite list \<Rightarrow> cite list" where
  "cites_with_id ty x cs = filter (\<lambda>c. cite_type c = ty \<and> sub_id_of ty c = x) cs"

text \<open>The identifiers of the law references and of the primary bill references of a
  document.\<close>

definition law_ids :: "registry \<Rightarrow> mods_extension list \<Rightarrow> string list" where
  "law_ids reg extensions =
     concat (map (\<lambda>x. case ext_law x of
                        Some (Attrs elem) \<Rightarrow> [sub_id_of ''law'' (law_cite reg elem)]
                      | _ \<Rightarrow> [])
               extensions)"

definition bill_ids :: "registry \<Rightarrow> mods_extension list \<Rightarrow> string list" where
  "bill_ids reg extensions =
     concat (map (\<lambda>x. case ext_bill x of
                        Some (Attrs elem) \<Rightarrow>
                          (case map_of elem ''type'' of
                             None \<Rightarrow> []
                           | Some ty \<Rightarrow> [sub_id_of ''us_bill'' (bill_cite reg elem ty)])
                      | _ \<Rightarrow> [])
               extensions)"

text \<open>Every \<^verbatim>\<open>law\<close> and \<^verbatim>\<open>bill\<close> element of the document carries attributes, and
  every primary \<^verbatim>\<open>bill\<close> element a \<^verbatim>\<open>type\<close> attribute.\<close>

definition elements_well_formed :: "mods_extension list \<Rightarrow> bool" where
  "elements_well_formed extensions =
     list_all (\<lambda>x. ext_law x \<noteq> Some NoAttrs
                  \<and> (case ext_bill x of
                        None \<Rightarrow> True
                      | Some NoAttrs \<Rightarrow> False
                      | Some (Attrs elem) \<Rightarrow>
                          js_eq_string (attr ''priority'' elem) ''primary''
                          \<longrightarrow> map_of elem ''type'' \<noteq> None))
       extensions"

text \<open>The number of law citations with identifier \<open>x\<close> found so far is one if \<open>x\<close> has been
  seen and none otherwise.\<close>

definition seen_once :: "string \<Rightarrow> mods_state \<Rightarrow> bool" where
  "seen_once x st =
     (length (cites_with_id ''law'' x (ms_cites st)) = (if x \<in> set (ms_seen st) then 1 else 0))"

text \<open>The state a block of the callback leaves, however it ends.\<close>

definition flow_state :: "'a flow \<Rightarrow> 'a" where
  "flow_state r = (case r of Returned s \<Rightarrow> s | Continue s \<Rightarrow> s)"

text \<open>
  The integers that a JavaScript number holds exactly: those of magnitude below \<open>2^53\<close>.
  On them the numbers of this model and their numerals agree with the program's.
\<close>

definition safe_integer :: "int \<Rightarrow> bool" where
  "safe_integer n = (- 9007199254740992 < n \<and> n < 9007199254740992)"

definition safe_item :: "ledger_item \<Rightarrow> bool" where
  "safe_item item =
     (safe_integer (item_volume item) \<and> safe_integer (item_page item)
      \<and> (case item_npages item of None \<Rightarrow> True | Some n \<Rightarrow> safe_integer n))"

text \<open>The page a string query parses to, if any, is such an integer.\<close>

definition safe_page :: "string \<Rightarrow> bool" where
  "safe_page s = (case parse_int_string s of None \<Rightarrow> True | Some p \<Rightarrow> safe_integer p)"

text \<open>
  The match of a ledger entry against a queried volume \<open>t\<close> and page \<open>s\<close> that are strings:
  the volume and the start page are compared as strings with the entry's decimal numerals,
  and only the span test reads the page as a number.
\<close>

definition entry_matches_strings :: "string \<Rightarrow> string \<Rightarrow> ledger_item \<Rightarrow> bool" where
  "entry_matches_strings t s entry =
     (int_to_string (item_volume entry) = t
      \<and> (int_to_string (item_page entry) = s
          \<or> (case item_npages entry of
                None \<Rightarrow> False
              | Some n \<Rightarrow>
                  (case parse_int_string s of
                     None \<Rightarrow> False
                   | Some p \<Rightarrow> item_page entry \<le> p \<and> p < item_page entry + n))))"

section \<open>Sample data\<close>

text \<open>A small registry: the type name is the type, there is no canonical form, the
  identifier joins the type and the payload, and no links are generated.\<close>

definition sample_registry :: registry where
  "sample_registry =
     \<lparr>reg_name = (\<lambda>ty. ty),
      reg_canonical = (\<lambda>ty. None),
      reg_id = (\<lambda>ty obj. ty @ concat (map (\<lambda>kv. ''/'' @ js_to_string (snd kv)) obj)),
      reg_links = (\<lambda>ty s. [])\<rparr>"

text \<open>A world with the given ledger files in which every request fails.\<close>

definition offline_world :: "(string \<times> ledger_item list) list \<Rightarrow> world" where
  "offline_world files =
     \<lparr>read_ledger = map_of files,
      get_mods = (\<lambda>u. ModsTransportError),
      get_status = (\<lambda>u. None),
      get_final_url = (\<lambda>u. None),
      get_bill_json = (\<lambda>u. JsonFailed),
      search_courtlistener = (\<lambda>u a. ClNoResponse),
      url_query = (\<lambda>u. None)\<rparr>"

definition no_env :: env where
  "no_env = \<lparr>env_courtlistener = None\<rparr>"

text \<open>A citation with one sub-citation, as the parser hands it over.\<close>

definition simple_cite :: "string \<Rightarrow> (string \<times> jsval) list \<Rightarrow> links \<Rightarrow> cite" where
  "simple_cite ty obj ls =
     Cite ty (JStr ty) JNull JUndefined None None
       [(ty, \<lparr>sub_fields = obj, sub_id = reg_id sample_registry ty obj, sub_links = Some ls\<rparr>)]"

definition stat_cite :: "jsval \<Rightarrow> jsval \<Rightarrow> cite" where
  "stat_cite v p = simple_cite ''stat'' [(''volume'', v), (''page'', p)] []"

definition entry :: "int \<Rightarrow> int \<Rightarrow> int option \<Rightarrow> string option \<Rightarrow> ledger_item" where
  "entry v p n note =
     \<lparr>item_volume = v, item_page = p, item_npages = n, item_type = None, item_congress = None,
      item_number = None, item_title = None, item_topic = None, item_file = None,
      item_citation = note\<rparr>"

text \<open>The ledger entry of the specification's example.\<close>

definition publaw_67_1 :: ledger_item where
  "publaw_67_1 =
     \<lparr>item_volume = 43, item_page = 1, item_npages = Some 50, item_type = Some ''publaw'',
      item_congress = Some 67, item_number = Some 1, item_title = None, item_topic = None,
      item_file = None, item_citation = None\<rparr>"

definition volume_43 :: string where
  "volume_43 = ''legisworks-historical-statutes/data/043.yaml''"

text \<open>The statute part of the query ``43 Stat. 6''.\<close>

definition query_43_6 :: subcite where
  "query_43_6 =
     \<lparr>sub_fields = [(''volume'', JStr ''43''), (''page'', JStr ''6'')],
      sub_id = ''stat/43/6'', sub_links = Some []\<rparr>"

text \<open>A ledger for volume 43 in ascending page order, with one row of another volume.\<close>

definition ledger_43 :: "ledger_item list" where
  "ledger_43 =
     [entry 43 1 (Some 9) (Some ''Chap. 1''), entry 43 5 (Some 2) (Some ''Chap. 2''),
      entry 43 6 None (Some ''Chap. 3''), entry 44 6 None (Some ''Chap. 5''),
      entry 43 7 (Some 3) (Some ''Chap. 4'')]"

text \<open>Two rows that claim page 6, one with an empty citation note and one with none.\<close>

definition blank_ledger :: "ledger_item list" where
  "blank_ledger = [entry 43 1 (Some 9) (Some []), entry 43 6 None None]"

text \<open>The same page claimed by a row that starts on it, listed before a row that spans it.\<close>

definition unordered_ledger :: "ledger_item list" where
  "unordered_ledger = [entry 43 6 None (Some ''Chap. 3''), entry 43 1 (Some 9) (Some ''Chap. 1'')]"

definition publaw_70_12 :: ledger_item where
  "publaw_70_12 =
     \<lparr>item_volume = 45, item_page = 12, item_npages = Some 2, item_type = Some ''publaw'',
      item_congress = Some 70, item_number = Some 12, item_title = Some ''An Act'',
      item_topic = None, item_file = Some ''045_statutes_at_large.pdf'',
      item_citation = Some ''Chap. 9''\<rparr>"

definition volume_45 :: string where
  "volume_45 = ''legisworks-historical-statutes/data/045.yaml''"

text \<open>A MODS document read off the wire: a law reference, and a later block that repeats
  it next to a primary bill reference and a short title.\<close>

definition law_ref_67_1 :: "(string \<times> string) list" where
  "law_ref_67_1 = [(''congress'', ''67''), (''isPrivate'', ''false''), (''number'', ''1'')]"

definition bill_ref_hr_2 :: "(string \<times> string) list" where
  "bill_ref_hr_2 =
     [(''priority'', ''primary''), (''congress'', ''67''), (''type'', ''HR''), (''number'', ''2'')]"

definition ext_first :: mods_extension where
  "ext_first =
     \<lparr>ext_law = Some (Attrs law_ref_67_1), ext_bill = None, ext_shortTitle = None, ext_searchTitle = None\<rparr>"

definition ext_repeat :: mods_extension where
  "ext_repeat =
     \<lparr>ext_law = Some (Attrs law_ref_67_1), ext_bill = Some (Attrs bill_ref_hr_2),
      ext_shortTitle = Some (XString ''An Act''), ext_searchTitle = None\<rparr>"

definition ext_plain :: mods_extension where
  "ext_plain =
     \<lparr>ext_law = None, ext_bill = Some (Attrs bill_ref_hr_2),
      ext_shortTitle = Some (XString ''An Act''), ext_searchTitle = None\<rparr>"

definition mods_url :: string where
  "mods_url = ''https://www.govinfo.gov/metadata/granule/STATUTE-42/STATUTE-42-Pg5/mods.xml''"

text \<open>A world whose MODS fetch answers with the given blocks.\<close>

definition mods_world :: "mods_extension list \<Rightarrow> world" where
  "mods_world extensions = (offline_world [])\<lparr>get_mods := (\<lambda>u. ModsDocument (Some extensions))\<rparr>"

text \<open>The state of the loop after \<open>ext_first\<close>, on the statute citation ``42 Stat. 5''.\<close>

definition state_after_first :: mods_state where
  "state_after_first =
     \<lparr>ms_cites = [law_cite sample_registry law_ref_67_1],
      ms_seen = [''law/67/public/1''],
      ms_cite = stat_cite (JStr ''42'') (JStr ''5'')\<rparr>"

text \<open>A regulation citation, and the state of the loop once the bill of \<open>bill_ref_hr_2\<close> has
  been seen.\<close>

definition cfr_cite :: cite where
  "cfr_cite = simple_cite ''cfr'' [(''title'', JStr ''12''), (''section'', JStr ''1.1'')] []"

definition state_after_bill :: mods_state where
  "state_after_bill =
     \<lparr>ms_cites = [bill_cite sample_registry bill_ref_hr_2 ''HR''],
      ms_seen = [''us_bill/true/67/hr/2''],
      ms_cite = stat_cite (JStr ''42'') (JStr ''5'')\<rparr>"






text \<open>A US Code citation with an authoritative direct link, and a world in which the House
  server answers every request with the given status.\<close>

definition house_link :: link_rec where
  "house_link =
     \<lparr>link_source = \<lparr>src_name = ''Office of the Law Revision Counsel'', src_abbreviation = ''OLRC'',
                      src_link = ''https://uscode.house.gov'',
                      src_authoritative = True, src_note = None\<rparr>,
      link_landing = None, link_pdf = None, link_mods = None,
      link_html = Some ''https://uscode.house.gov/view.xhtml?req=(title:5%20section:552-1%20edition:prelim)''\<rparr>"

definition usc_cite :: cite where
  "usc_cite =
     simple_cite ''usc'' [(''title'', JStr ''5''), (''section'', JStr ''552-1'')] [(''house'', house_link)]"


text \<open>Public law 70-12 as the parser hands it over, with no links yet, and an early public
  law outside the ledger's range.\<close>

definition law_70_12 :: cite where
  "law_70_12 =
     simple_cite ''law'' [(''congress'', JStr ''70''), (''type'', JStr ''public''), (''number'', JStr ''12'')] []"








text \<open>A citation that carries public law 70-12 and the US Code section side by side.\<close>

definition law_and_usc :: cite where
  "law_and_usc = set_subs (subs law_70_12 @ subs usc_cite) law_70_12"

text \<open>A block whose \<open>law\<close> element has no attributes.\<close>

definition ext_bare :: mods_extension where
  "ext_bare =
     \<lparr>ext_law = Some NoAttrs, ext_bill = None, ext_shortTitle = None, ext_searchTitle = None\<rparr>"


text \<open>The statute part of the query ``43 Stat. 06'', page as printed with a leading zero.\<close>

definition query_43_06 :: subcite where
  "query_43_06 =
     \<lparr>sub_fields = [(''volume'', JStr ''43''), (''page'', JStr ''06'')],
      sub_id = ''stat/43/06'', sub_links = Some []\<rparr>"

section \<open>Decimal numerals: printing and reading back\<close>

lemma below_ten_cases: "(d::nat) < 10 \<Longrightarrow> d = 0 \<or> d = 1 \<or> d = 2 \<or> d = 3 \<or> d = 4 \<or> d = 5 \<or> d = 6 \<or> d = 7 \<or> d = 8 \<or> d = 9"
  by arith

lemma digit_char_is_digit: "d < 10 \<Longrightarrow> is_digit (digit_char d)"
  by (drule below_ten_cases) (elim disjE; simp add: is_digit_def digit_char_def)

lemma digit_val_digit_char: "d < 10 \<Longrightarrow> digit_val (digit_char d) = d"
  by (drule below_ten_cases) (elim disjE; simp add: digit_val_def digit_char_def)

lemma nat_to_string_digits: "list_all is_digit (nat_to_string n)"
proof (induction n rule: nat_to_string.induct)
  case (1 n)
  show ?case
  proof (cases "n < 10")
    case True
    then show ?thesis by (subst nat_to_string.simps) (simp add: digit_char_is_digit)
  next
    case False
    with 1 show ?thesis by (subst nat_to_string.simps) (simp add: digit_char_is_digit)
  qed
qed

lemma nat_to_string_nonempty: "nat_to_string n \<noteq> []"
  by (subst nat_to_string.simps) simp

lemma digits_value_snoc: "digits_value (ds @ [c]) = 10 * digits_value ds + digit_val c"
  by (simp add: digits_value_def)

lemma digits_value_nat_to_string: "digits_value (nat_to_string n) = n"
proof (induction n rule: nat_to_string.induct)
  case (1 n)
  show ?case
  proof (cases "n < 10")
    case True
    then show ?thesis
      by (subst nat_to_string.simps) (simp add: digits_value_def digit_val_digit_char)
  next
    case False
    with 1 show ?thesis
      by (subst nat_to_string.simps) (simp add: digits_value_snoc digit_val_digit_char)
  qed
qed

lemma is_digit_not_space: "is_digit c \<Longrightarrow> \<not> is_space c"
  by (auto simp: is_digit_def is_space_def)

lemma is_digit_not_sign: "is_digit c \<Longrightarrow> c \<noteq> CHR ''-'' \<and> c \<noteq> CHR ''+'' \<and> c \<noteq> CHR ''x'' \<and> c \<noteq> CHR ''X''"
  by (auto simp: is_digit_def)

lemma takeWhile_all: "list_all P xs \<Longrightarrow> takeWhile P xs = xs"
  by (induction xs) auto

lemma digits_no_hex_prefix:
  assumes "list_all is_digit u"
  shows "take 2 u \<noteq> ''0x'' \<and> take 2 u \<noteq> ''0X''"
proof (cases u)
  case Nil
  then show ?thesis by simp
next
  case (Cons a v)
  show ?thesis
  proof (cases v)
    case Nil
    with Cons show ?thesis by simp
  next
    case (Cons b t)
    with \<open>u = a # v\<close> assms have "is_digit b" by simp
    then have "b \<noteq> CHR ''x'' \<and> b \<noteq> CHR ''X''" by (simp add: is_digit_not_sign)
    with Cons \<open>u = a # v\<close> show ?thesis by simp
  qed
qed

lemma parse_digits:
  assumes "list_all is_digit u" "u \<noteq> []"
  shows "parse_int_string u = Some (int (digits_value u))"
proof -
  from assms obtain a v where u: "u = a # v" by (cases u) auto
  with assms have a: "is_digit a" by simp
  have d: "dropWhile is_space u = u" using u a by (simp add: is_digit_not_space)
  have h: "hd u \<noteq> CHR ''-'' \<and> hd u \<noteq> CHR ''+''" using u a by (simp add: is_digit_not_sign)
  show ?thesis
    using digits_no_hex_prefix[OF assms(1)] assms(2) h
    by (simp add: parse_int_string_def d Let_def takeWhile_all[OF assms(1)])
qed

lemma minus_not_space: "\<not> is_space CHR ''-''"
  by (simp add: is_space_def)

lemma parse_neg_digits:
  assumes "list_all is_digit u" "u \<noteq> []"
  shows "parse_int_string (CHR ''-'' # u) = Some (- int (digits_value u))"
  using digits_no_hex_prefix[OF assms(1)] assms(2)
  by (simp add: parse_int_string_def minus_not_space Let_def takeWhile_all[OF assms(1)])

lemma parse_int_to_string: "parse_int_string (int_to_string i) = Some i"
  by (simp add: int_to_string_def parse_digits parse_neg_digits nat_to_string_digits
      nat_to_string_nonempty digits_value_nat_to_string)

lemma int_to_string_inj: "int_to_string a = int_to_string b \<longleftrightarrow> a = b"
  by (metis parse_int_to_string option.inject)

lemma trim_digits:
  assumes "list_all is_digit u"
  shows "rev (dropWhile is_space (rev (dropWhile is_space u))) = u"
proof -
  have 1: "dropWhile is_space u = u" using assms by (cases u) (auto simp: is_digit_not_space)
  have "list_all is_digit (rev u)" using assms by (simp add: list_all_iff)
  then have 2: "dropWhile is_space (rev u) = rev u" by (cases "rev u") (auto simp: is_digit_not_space)
  show ?thesis by (simp add: 1 2)
qed

lemma number_digits:
  assumes "list_all is_digit u" "u \<noteq> []"
  shows "string_to_number u = Some (int (digits_value u))"
proof -
  from assms obtain a v where u: "u = a # v" by (cases u) auto
  with assms have a: "is_digit a" by simp
  have h: "hd u \<noteq> CHR ''-'' \<and> hd u \<noteq> CHR ''+''" using u a by (simp add: is_digit_not_sign)
  show ?thesis using assms h by (simp add: string_to_number_def trim_digits Let_def)
qed

lemma trim_neg_digits:
  assumes "list_all is_digit u" "u \<noteq> []"
  shows "rev (dropWhile is_space (rev (dropWhile is_space (CHR ''-'' # u)))) = CHR ''-'' # u"
proof -
  have "list_all is_digit (rev u)" using assms by (simp add: list_all_iff)
  moreover have "rev u \<noteq> []" using assms by simp
  ultimately have 2: "dropWhile is_space (rev u @ [CHR ''-'']) = rev u @ [CHR ''-'']"
    by (cases "rev u") (auto simp: is_digit_not_space)
  show ?thesis using 2 by (simp add: minus_not_space)
qed

lemma number_neg_digits:
  assumes "list_all is_digit u" "u \<noteq> []"
  shows "string_to_number (CHR ''-'' # u) = Some (- int (digits_value u))"
  unfolding string_to_number_def trim_neg_digits[OF assms] Let_def
  using assms by simp

lemma number_int_to_string: "string_to_number (int_to_string i) = Some i"
  by (simp add: int_to_string_def number_digits number_neg_digits nat_to_string_digits
      nat_to_string_nonempty digits_value_nat_to_string)

section \<open>The ledger loop and the candidates\<close>

lemma collect_matches_filter:
  "collect_matches st body acc = acc @ filter (page_span_match st) body"
  by (induction body arbitrary: acc) (auto simp: page_span_match_def)

lemma get_from_legisworks_eq:
  assumes "map_of (subs c) ''stat'' = Some st"
    and "read_ledger w (ledger_path (field ''volume'' (sub_fields st))) = Some body"
  shows "get_from_legisworks reg w c =
         Inr (map (make_candidate reg st (length (filter (page_span_match st) body)))
                (rev (filter (page_span_match st) body)))"
  using assms by (simp add: get_from_legisworks_def collect_matches_filter Let_def rev_map)

lemma explode_eq:
  assumes "map_of (subs c) ''stat'' = Some st"
    and "js_le (field ''volume'' (sub_fields st)) 64"
    and "read_ledger w (ledger_path (field ''volume'' (sub_fields st))) = Some body"
  shows "explode reg w c e =
         Inr (map (make_candidate reg st (length (filter (page_span_match st) body)))
                (rev (filter (page_span_match st) body)))"
  using assms by (simp add: explode_def get_from_legisworks_eq)

lemma disambiguation_set_link [simp]: "disambiguation (set_link k n l c) = disambiguation c"
  by (cases c) (simp add: set_link_def)

lemma disambiguation_set_title [simp]: "disambiguation (set_title t c) = disambiguation c"
  by (cases c) simp

lemma disambiguation_set_citation [simp]: "disambiguation (set_citation t c) = disambiguation c"
  by (cases c) simp

lemma disambiguation_set_parallel [simp]: "disambiguation (set_parallel_citations t c) = disambiguation c"
  by (cases c) simp

lemma disambiguation_set_disambiguation [simp]: "disambiguation (set_disambiguation t c) = Some t"
  by (cases c) simp

lemma disambiguation_create [simp]: "disambiguation (create_parallel_cite reg ty obj) = None"
  by (simp add: create_parallel_cite_def Let_def)

lemma disambiguation_make_candidate:
  "disambiguation (make_candidate reg st n item) =
     (if n > 1 then Some (opt_str (item_citation item)) else None)"
  by (simp add: make_candidate_def Let_def)


lemma partition_sorted:
  "sorted_wrt (\<lambda>a b. P a \<longrightarrow> P b) xs \<Longrightarrow> xs = filter (\<lambda>x. \<not> P x) xs @ filter P xs"
proof (induction xs)
  case Nil
  then show ?case by simp
next
  case (Cons x xs)
  show ?case
  proof (cases "P x")
    case True
    with Cons.prems have "\<forall>y \<in> set xs. P y" by simp
    then have "filter (\<lambda>x. \<not> P x) xs = []" and "filter P xs = xs" by (simp_all add: filter_empty_conv)
    with True show ?thesis by simp
  next
    case False
    with Cons show ?thesis by simp
  qed
qed

lemma start_page_parse:
  "is_start_page st a \<Longrightarrow> parseInt (field ''page'' (sub_fields st)) = Some p \<Longrightarrow> p = item_page a"
  by (cases "field ''page'' (sub_fields st)")
     (auto simp: is_start_page_def parse_int_to_string number_int_to_string)

lemma start_page_same:
  "is_start_page st a \<Longrightarrow> item_page b = item_page a \<Longrightarrow> is_start_page st b"
  by (simp add: is_start_page_def)

lemma span_before_start:
  assumes a: "is_start_page st a" and b: "page_span_match st b" "\<not> is_start_page st b"
  shows "item_page b < item_page a"
proof -
  from b have "spans_page b (field ''page'' (sub_fields st))" by (simp add: page_span_match_def)
  then obtain p where p: "parseInt (field ''page'' (sub_fields st)) = Some p" "item_page b \<le> p"
    by (auto simp: spans_page_def split: option.splits)
  from start_page_parse[OF a p(1)] have "p = item_page a" .
  moreover have "item_page b \<noteq> item_page a" using start_page_same[OF a] b(2) by blast
  ultimately show ?thesis using p(2) by simp
qed

lemma matches_start_last:
  assumes "sorted_wrt (\<lambda>a b. item_page a \<le> item_page b) body"
  shows "sorted_wrt (\<lambda>a b. is_start_page st a \<longrightarrow> is_start_page st b)
           (filter (page_span_match st) body)"
proof -
  have s: "sorted_wrt (\<lambda>a b. item_page a \<le> item_page b) (filter (page_span_match st) body)"
    using assms by (rule sorted_wrt_filter)
  show ?thesis
  proof (rule sorted_wrt_mono_rel[OF _ s])
    fix a b :: ledger_item
    assume "b \<in> set (filter (page_span_match st) body)" and le: "item_page a \<le> item_page b"
    then have m: "page_span_match st b" by simp
    show "is_start_page st a \<longrightarrow> is_start_page st b"
      using span_before_start[of st a b] m le by fastforce
  qed
qed

lemma start_pages_first:
  assumes "sorted_wrt (\<lambda>a b. item_page a \<le> item_page b) body"
  shows "rev (filter (page_span_match st) body) =
         filter (is_start_page st) (rev (filter (page_span_match st) body))
         @ filter (\<lambda>item. \<not> is_start_page st item) (rev (filter (page_span_match st) body))"
proof -
  let ?ms = "filter (page_span_match st) body"
  have "?ms = filter (\<lambda>x. \<not> is_start_page st x) ?ms @ filter (is_start_page st) ?ms"
    by (rule partition_sorted[OF matches_start_last[OF assms]])
  then have "rev ?ms = rev (filter (\<lambda>x. \<not> is_start_page st x) ?ms @ filter (is_start_page st) ?ms)"
    by simp
  then show ?thesis by (simp add: rev_filter)
qed

lemma eq_string_integer_query:
  "integer_query v n \<Longrightarrow> js_eq_string v (int_to_string m) \<longleftrightarrow> m = n"
  by (auto simp: integer_query_def number_int_to_string int_to_string_inj)

lemma parseInt_integer_query: "integer_query v n \<Longrightarrow> parseInt v = Some n"
  by (auto simp: integer_query_def parse_int_to_string)

lemma page_span_match_integer:
  assumes "integer_query (field ''volume'' (sub_fields st)) volume"
    and "integer_query (field ''page'' (sub_fields st)) page"
  shows "page_span_match st item \<longleftrightarrow> entry_matches volume page item"
  using assms
  by (auto simp: page_span_match_def entry_matches_def is_start_page_def spans_page_def
      eq_string_integer_query parseInt_integer_query split: option.splits)

lemma selectors_set_link [simp]:
  "title (set_link k n l c) = title c"
  "citation (set_link k n l c) = citation c"
  "parallel_citations (set_link k n l c) = parallel_citations c"
  "cite_type (set_link k n l c) = cite_type c"
  by (cases c; simp add: set_link_def)+

lemma selectors_set_title [simp]:
  "title (set_title t c) = t"
  "citation (set_title t c) = citation c"
  "parallel_citations (set_title t c) = parallel_citations c"
  "cite_type (set_title t c) = cite_type c"
  "subs (set_title t c) = subs c"
  "type_name (set_title t c) = type_name c"
  by (cases c; simp)+

lemma selectors_set_citation [simp]:
  "title (set_citation t c) = title c"
  "citation (set_citation t c) = t"
  "parallel_citations (set_citation t c) = parallel_citations c"
  "cite_type (set_citation t c) = cite_type c"
  "subs (set_citation t c) = subs c"
  "type_name (set_citation t c) = type_name c"
  by (cases c; simp)+

lemma selectors_set_disambiguation [simp]:
  "title (set_disambiguation t c) = title c"
  "citation (set_disambiguation t c) = citation c"
  "parallel_citations (set_disambiguation t c) = parallel_citations c"
  "cite_type (set_disambiguation t c) = cite_type c"
  "subs (set_disambiguation t c) = subs c"
  by (cases c; simp)+

lemma selectors_set_parallel [simp]:
  "title (set_parallel_citations t c) = title c"
  "citation (set_parallel_citations t c) = citation c"
  "parallel_citations (set_parallel_citations t c) = Some t"
  "cite_type (set_parallel_citations t c) = cite_type c"
  "subs (set_parallel_citations t c) = subs c"
  by (cases c; simp)+

lemma selectors_set_type_name [simp]:
  "title (set_type_name t c) = title c"
  "citation (set_type_name t c) = citation c"
  "type_name (set_type_name t c) = t"
  "cite_type (set_type_name t c) = cite_type c"
  "subs (set_type_name t c) = subs c"
  by (cases c; simp)+

lemma selectors_create [simp]:
  "parallel_citations (create_parallel_cite reg ty obj) = None"
  "cite_type (create_parallel_cite reg ty obj) = ty"
  "title (create_parallel_cite reg ty obj) = field ''title'' obj"
  by (simp_all add: create_parallel_cite_def Let_def)

lemma payload_create [simp]: "payload ty f (create_parallel_cite reg ty obj) = field f obj"
  by (simp add: create_parallel_cite_def payload_def Let_def)

lemma payload_set_title [simp]: "payload k f (set_title t c) = payload k f c"
  by (simp add: payload_def)

lemma citation_make_candidate:
  "citation (make_candidate reg st n item) =
     JStr (int_to_string (item_volume item) @ '' Stat. '' @ int_to_string (item_page item))"
  by (simp add: make_candidate_def Let_def)

lemma title_make_candidate: "title (make_candidate reg st n item) = title_or_topic item"
  by (simp add: make_candidate_def Let_def)

lemma parallel_make_candidate:
  "parallel_citations (make_candidate reg st n item) =
     (if js_ge (opt_num (item_congress item)) 38 \<and> js_eq_string (opt_str (item_type item)) ''publaw''
      then Some [set_title (title_or_topic item)
                   (create_parallel_cite reg ''law''
                      [(''congress'', opt_num (item_congress item)), (''type'', JStr ''public''),
                       (''number'', opt_num (item_number item))])]
      else None)"
  by (simp add: make_candidate_def Let_def)

section \<open>Properties of the ledger lookup and of explode\<close>

lemma page_span_match_strings:
  assumes "field ''volume'' (sub_fields st) = JStr t" and "field ''page'' (sub_fields st) = JStr s"
  shows "page_span_match st item \<longleftrightarrow> entry_matches_strings t s item"
  using assms
  by (auto simp: page_span_match_def entry_matches_strings_def is_start_page_def spans_page_def
      split: option.splits)

text \<open>
  C3, as the code has it.  Take ledger entries whose volume, page and page count are
  integers of magnitude below \<open>2^53\<close>.  If the queried volume and page are such integers,
  given to the code as numbers or as their decimal numerals, the ledger loop selects exactly
  the entries whose volume equals the queried volume and whose start page equals the queried
  page or whose span \<open>[page, page + npages)\<close>, when \<open>npages\<close> is set, contains it.  If they
  are given as strings, the page a string of decimal digits as the citation parser captures
  it (leading zeros included), the volume and the start page are compared as strings with
  the entry's decimal numerals and only the span test reads the page as a number: an entry
  is selected exactly when its volume's numeral is the queried volume string and its start
  page's numeral is the queried page string or its span contains the number the page string
  parses to.  In both cases the selected entries keep their ledger order.
\<close>

theorem ledger_selection:
  assumes "list_all safe_item body"
  shows "(integer_query (field ''volume'' (sub_fields st)) volume
          \<and> integer_query (field ''page'' (sub_fields st)) page
          \<and> safe_integer volume \<and> safe_integer page
         \<longrightarrow> collect_matches st body [] = filter (entry_matches volume page) body)
       \<and> (field ''volume'' (sub_fields st) = JStr t
          \<and> field ''page'' (sub_fields st) = JStr s
          \<and> s \<noteq> [] \<and> list_all is_digit s \<and> safe_page s
         \<longrightarrow> collect_matches st body [] = filter (entry_matches_strings t s) body)"
proof (intro conjI impI)
  assume a: "integer_query (field ''volume'' (sub_fields st)) volume
          \<and> integer_query (field ''page'' (sub_fields st)) page
          \<and> safe_integer volume \<and> safe_integer page"
  then have "page_span_match st = entry_matches volume page"
    using page_span_match_integer[of st volume page] by (intro ext) simp
  then show "collect_matches st body [] = filter (entry_matches volume page) body"
    by (simp add: collect_matches_filter)
next
  assume b: "field ''volume'' (sub_fields st) = JStr t
          \<and> field ''page'' (sub_fields st) = JStr s
          \<and> s \<noteq> [] \<and> list_all is_digit s \<and> safe_page s"
  then have "page_span_match st = entry_matches_strings t s"
    using page_span_match_strings[of st t s] by (intro ext) simp
  then show "collect_matches st body [] = filter (entry_matches_strings t s) body"
    by (simp add: collect_matches_filter)
qed

theorem ledger_selection_witness:
  "list_all safe_item ledger_43
   \<and> integer_query (field ''volume'' (sub_fields query_43_6)) 43
   \<and> integer_query (field ''page'' (sub_fields query_43_6)) 6
   \<and> safe_integer 43 \<and> safe_integer 6
   \<and> collect_matches query_43_6 ledger_43 []
       = [entry 43 1 (Some 9) (Some ''Chap. 1''), entry 43 5 (Some 2) (Some ''Chap. 2''),
          entry 43 6 None (Some ''Chap. 3'')]
   \<and> field ''volume'' (sub_fields query_43_06) = JStr ''43''
   \<and> field ''page'' (sub_fields query_43_06) = JStr ''06''
   \<and> list_all is_digit ''06'' \<and> safe_page ''06''
   \<and> collect_matches query_43_06 ledger_43 []
       = [entry 43 1 (Some 9) (Some ''Chap. 1''), entry 43 5 (Some 2) (Some ''Chap. 2'')]"
proof -
  have b: "list_all safe_item ledger_43" by code_simp
  have v: "integer_query (field ''volume'' (sub_fields query_43_6)) 43" by code_simp
  have p: "integer_query (field ''page'' (sub_fields query_43_6)) 6" by code_simp
  have s1: "safe_integer 43" by code_simp
  have s2: "safe_integer 6" by code_simp
  have f: "filter (entry_matches 43 6) ledger_43
       = [entry 43 1 (Some 9) (Some ''Chap. 1''), entry 43 5 (Some 2) (Some ''Chap. 2''),
          entry 43 6 None (Some ''Chap. 3'')]" by code_simp
  have x: "collect_matches query_43_6 ledger_43 []
       = [entry 43 1 (Some 9) (Some ''Chap. 1''), entry 43 5 (Some 2) (Some ''Chap. 2''),
          entry 43 6 None (Some ''Chap. 3'')]"
    using ledger_selection[OF b, of query_43_6 43 6] v p s1 s2 f by simp
  have v0: "field ''volume'' (sub_fields query_43_06) = JStr ''43''" by code_simp
  have p0: "field ''page'' (sub_fields query_43_06) = JStr ''06''" by code_simp
  have s0: "safe_page ''06''" by code_simp
  have d0: "list_all is_digit ''06''" by code_simp
  have f0: "filter (entry_matches_strings ''43'' ''06'') ledger_43
       = [entry 43 1 (Some 9) (Some ''Chap. 1''), entry 43 5 (Some 2) (Some ''Chap. 2'')]"
    by code_simp
  have y: "collect_matches query_43_06 ledger_43 []
       = [entry 43 1 (Some 9) (Some ''Chap. 1''), entry 43 5 (Some 2) (Some ''Chap. 2'')]"
    using ledger_selection[OF b, of query_43_06 _ _ "''43''" "''06''"] v0 p0 s0 d0 f0 by simp
  show ?thesis by (intro conjI b v p s1 s2 x v0 p0 d0 s0 y)
qed

text \<open>
  The claim C3 itself fails for a page that is not a canonical numeral.  The page
  \<^verbatim>\<open>"06"\<close> is page 6, and the entry that starts on page 6 of volume 43 matches in the
  claim's sense; but the loop compares \<^verbatim>\<open>"6"\<close> with \<^verbatim>\<open>"06"\<close> as strings, the entry has no
  page count, and it is not selected.
\<close>

theorem ledger_selection_counterexample:
  "parseInt (JStr ''06'') = Some 6
   \<and> parseInt (JStr ''43'') = Some 43
   \<and> entry_matches 43 6 (entry 43 6 None (Some ''Chap. 3''))
   \<and> collect_matches query_43_06 [entry 43 6 None (Some ''Chap. 3'')] [] = []"
  by code_simp

text \<open>
  C1, as the code has it.  For a statute citation whose volume is at most 64, whose ledger
  file loads and in which no entry satisfies the page/span match, \<open>explode\<close> returns the
  empty list: the citation is dropped, not handed back.
\<close>

theorem explode_no_match:
  assumes "map_of (subs c) ''stat'' = Some st"
    and "js_le (field ''volume'' (sub_fields st)) 64"
    and "read_ledger w (ledger_path (field ''volume'' (sub_fields st))) = Some body"
    and "filter (page_span_match st) body = []"
  shows "explode reg w c e = Inr []"
  using explode_eq[OF assms(1-3), of reg e] assms(4) by simp

theorem explode_no_match_witness:
  "map_of (subs (stat_cite (JNum 43) (JNum 20))) ''stat''
     = Some \<lparr>sub_fields = [(''volume'', JNum 43), (''page'', JNum 20)],
             sub_id = ''stat/43/20'', sub_links = Some []\<rparr>
   \<and> js_le (JNum 43) 64
   \<and> read_ledger (offline_world [(volume_43, ledger_43)]) (ledger_path (JNum 43)) = Some ledger_43
   \<and> explode sample_registry (offline_world [(volume_43, ledger_43)])
         (stat_cite (JNum 43) (JNum 20)) no_env = Inr []"
proof -
  let ?st = "\<lparr>sub_fields = [(''volume'', JNum 43), (''page'', JNum 20)],
              sub_id = ''stat/43/20'', sub_links = Some []\<rparr>"
  have s: "map_of (subs (stat_cite (JNum 43) (JNum 20))) ''stat'' = Some ?st" by code_simp
  have a: "js_le (JNum 43) 64" by code_simp
  have b: "read_ledger (offline_world [(volume_43, ledger_43)]) (ledger_path (JNum 43)) = Some ledger_43"
    by code_simp
  have l: "js_le (field ''volume'' (sub_fields ?st)) 64" by code_simp
  have r: "read_ledger (offline_world [(volume_43, ledger_43)])
             (ledger_path (field ''volume'' (sub_fields ?st))) = Some ledger_43" by code_simp
  have n: "filter (page_span_match ?st) ledger_43 = []" by code_simp
  have x: "explode sample_registry (offline_world [(volume_43, ledger_43)])
             (stat_cite (JNum 43) (JNum 20)) no_env = Inr []"
    by (rule explode_no_match[OF s l r n])
  show ?thesis using s a b x by blast
qed

text \<open>
  The claim C1 itself fails: the ledger of volume 43 has no entry for page 1 here, and the
  result is the empty list, not the list holding the original citation.
\<close>

theorem explode_no_match_counterexample:
  "js_le (JStr ''43'') 64
   \<and> collect_matches
        \<lparr>sub_fields = [(''volume'', JStr ''43''), (''page'', JStr ''1'')],
          sub_id = ''stat/43/1'', sub_links = Some []\<rparr>
        [entry 43 5 (Some 2) None] [] = []
   \<and> explode sample_registry (offline_world [(volume_43, [entry 43 5 (Some 2) None])])
         (stat_cite (JStr ''43'') (JStr ''1'')) no_env = Inr []
   \<and> explode sample_registry (offline_world [(volume_43, [entry 43 5 (Some 2) None])])
         (stat_cite (JStr ''43'') (JStr ''1'')) no_env \<noteq> Inr [stat_cite (JStr ''43'') (JStr ''1'')]"
  by code_simp

text \<open>
  C4, as the code has it.  For a ledger query made by \<open>explode\<close>, the candidates are the
  matching entries in reverse ledger order.  With exactly one match the candidate has no
  disambiguation field.  With two or more matches every candidate's disambiguation field is
  its entry's free-text citation note, whatever that is (\<^verbatim>\<open>undefined\<close> when the entry
  has none).  When the ledger lists its entries by ascending start page, the candidates of
  entries starting on the queried page come before those of entries that only span it.
\<close>

theorem explode_candidates:
  assumes "map_of (subs c) ''stat'' = Some st"
    and "js_le (field ''volume'' (sub_fields st)) 64"
    and "read_ledger w (ledger_path (field ''volume'' (sub_fields st))) = Some body"
  shows "\<exists>cands ms.
           ms = rev (filter (page_span_match st) body)
         \<and> explode reg w c e = Inr cands
         \<and> length cands = length ms
         \<and> map citation cands
             = map (\<lambda>item. JStr (int_to_string (item_volume item) @ '' Stat. ''
                                  @ int_to_string (item_page item))) ms
         \<and> (length ms = 1 \<longrightarrow> map disambiguation cands = [None])
         \<and> (length ms \<ge> 2 \<longrightarrow>
               map disambiguation cands = map (\<lambda>item. Some (opt_str (item_citation item))) ms)
         \<and> (sorted_wrt (\<lambda>a b. item_page a \<le> item_page b) body \<longrightarrow>
               ms = filter (is_start_page st) ms @ filter (\<lambda>item. \<not> is_start_page st item) ms)"
proof -
  let ?ms = "rev (filter (page_span_match st) body)"
  let ?n = "length (filter (page_span_match st) body)"
  let ?cands = "map (make_candidate reg st ?n) ?ms"
  have e: "explode reg w c e = Inr ?cands" by (rule explode_eq[OF assms])
  have c: "map citation ?cands
             = map (\<lambda>item. JStr (int_to_string (item_volume item) @ '' Stat. ''
                                  @ int_to_string (item_page item))) ?ms"
    by (simp add: citation_make_candidate)
  have d1: "length ?ms = 1 \<longrightarrow> map disambiguation ?cands = [None]"
  proof
    assume l: "length ?ms = 1"
    then obtain x where x: "?ms = [x]" by (cases ?ms) auto
    have "?n = 1" using l by simp
    then show "map disambiguation ?cands = [None]"
      unfolding x by (simp add: disambiguation_make_candidate)
  qed
  have d2: "length ?ms \<ge> 2 \<longrightarrow>
              map disambiguation ?cands = map (\<lambda>item. Some (opt_str (item_citation item))) ?ms"
    by (simp add: disambiguation_make_candidate)
  have o: "sorted_wrt (\<lambda>a b. item_page a \<le> item_page b) body \<longrightarrow>
             ?ms = filter (is_start_page st) ?ms @ filter (\<lambda>item. \<not> is_start_page st item) ?ms"
    using start_pages_first[of body st] by blast
  show ?thesis using e c d1 d2 o by (intro exI[of _ ?cands] exI[of _ ?ms]) simp
qed

theorem explode_candidates_witness:
  "map_of (subs (stat_cite (JStr ''43'') (JStr ''6''))) ''stat'' = Some query_43_6
   \<and> js_le (field ''volume'' (sub_fields query_43_6)) 64
   \<and> read_ledger (offline_world [(volume_43, ledger_43)])
        (ledger_path (field ''volume'' (sub_fields query_43_6))) = Some ledger_43
   \<and> sorted_wrt (\<lambda>a b. item_page a \<le> item_page b) ledger_43
   \<and> (\<exists>cands. explode sample_registry (offline_world [(volume_43, ledger_43)])
                  (stat_cite (JStr ''43'') (JStr ''6'')) no_env = Inr cands
        \<and> map citation cands = [JStr ''43 Stat. 6'', JStr ''43 Stat. 5'', JStr ''43 Stat. 1'']
        \<and> map disambiguation cands
            = [Some (JStr ''Chap. 3''), Some (JStr ''Chap. 2''), Some (JStr ''Chap. 1'')])
   \<and> filter (is_start_page query_43_6) (rev (filter (page_span_match query_43_6) ledger_43))
        @ filter (\<lambda>item. \<not> is_start_page query_43_6 item)
            (rev (filter (page_span_match query_43_6) ledger_43))
       = [entry 43 6 None (Some ''Chap. 3''), entry 43 5 (Some 2) (Some ''Chap. 2''),
          entry 43 1 (Some 9) (Some ''Chap. 1'')]
   \<and> (\<exists>cands. explode sample_registry (offline_world [(volume_43, ledger_43)])
                  (stat_cite (JStr ''43'') (JStr ''3'')) no_env = Inr cands
        \<and> map disambiguation cands = [None])"
proof -
  let ?w = "offline_world [(volume_43, ledger_43)]"
  let ?q3 = "\<lparr>sub_fields = [(''volume'', JStr ''43''), (''page'', JStr ''3'')],
              sub_id = ''stat/43/3'', sub_links = Some []\<rparr>"
  have s: "map_of (subs (stat_cite (JStr ''43'') (JStr ''6''))) ''stat'' = Some query_43_6"
    by code_simp
  have l: "js_le (field ''volume'' (sub_fields query_43_6)) 64" by code_simp
  have r: "read_ledger ?w (ledger_path (field ''volume'' (sub_fields query_43_6))) = Some ledger_43"
    by code_simp
  have o: "sorted_wrt (\<lambda>a b. item_page a \<le> item_page b) ledger_43" by code_simp
  have m: "rev (filter (page_span_match query_43_6) ledger_43)
             = [entry 43 6 None (Some ''Chap. 3''), entry 43 5 (Some 2) (Some ''Chap. 2''),
                entry 43 1 (Some 9) (Some ''Chap. 1'')]" by code_simp
  have c6: "map (\<lambda>item. JStr (int_to_string (item_volume item) @ '' Stat. ''
                                  @ int_to_string (item_page item)))
              [entry 43 6 None (Some ''Chap. 3''), entry 43 5 (Some 2) (Some ''Chap. 2''),
               entry 43 1 (Some 9) (Some ''Chap. 1'')]
            = [JStr ''43 Stat. 6'', JStr ''43 Stat. 5'', JStr ''43 Stat. 1'']" by code_simp
  have d6: "map (\<lambda>item. Some (opt_str (item_citation item)))
              [entry 43 6 None (Some ''Chap. 3''), entry 43 5 (Some 2) (Some ''Chap. 2''),
               entry 43 1 (Some 9) (Some ''Chap. 1'')]
            = [Some (JStr ''Chap. 3''), Some (JStr ''Chap. 2''), Some (JStr ''Chap. 1'')]"
    by code_simp
  from explode_candidates[OF s l r, of sample_registry no_env] obtain cands where
    e: "explode sample_registry ?w (stat_cite (JStr ''43'') (JStr ''6'')) no_env = Inr cands"
    and c: "map citation cands
             = map (\<lambda>item. JStr (int_to_string (item_volume item) @ '' Stat. ''
                                  @ int_to_string (item_page item)))
                 (rev (filter (page_span_match query_43_6) ledger_43))"
    and d: "length (rev (filter (page_span_match query_43_6) ledger_43)) \<ge> 2 \<longrightarrow>
            map disambiguation cands
             = map (\<lambda>item. Some (opt_str (item_citation item)))
                 (rev (filter (page_span_match query_43_6) ledger_43))"
    and p: "sorted_wrt (\<lambda>a b. item_page a \<le> item_page b) ledger_43 \<longrightarrow>
            rev (filter (page_span_match query_43_6) ledger_43)
             = filter (is_start_page query_43_6) (rev (filter (page_span_match query_43_6) ledger_43))
               @ filter (\<lambda>item. \<not> is_start_page query_43_6 item)
                   (rev (filter (page_span_match query_43_6) ledger_43))"
    by blast
  have c': "map citation cands = [JStr ''43 Stat. 6'', JStr ''43 Stat. 5'', JStr ''43 Stat. 1'']"
    using c unfolding m c6 .
  have d': "map disambiguation cands
         = [Some (JStr ''Chap. 3''), Some (JStr ''Chap. 2''), Some (JStr ''Chap. 1'')]"
    using d unfolding m d6 by simp
  have p': "filter (is_start_page query_43_6) (rev (filter (page_span_match query_43_6) ledger_43))
        @ filter (\<lambda>item. \<not> is_start_page query_43_6 item)
            (rev (filter (page_span_match query_43_6) ledger_43))
       = [entry 43 6 None (Some ''Chap. 3''), entry 43 5 (Some 2) (Some ''Chap. 2''),
          entry 43 1 (Some 9) (Some ''Chap. 1'')]"
    using p o m by simp
  have s3: "map_of (subs (stat_cite (JStr ''43'') (JStr ''3''))) ''stat'' = Some ?q3" by code_simp
  have l3: "js_le (field ''volume'' (sub_fields ?q3)) 64" by code_simp
  have r3: "read_ledger ?w (ledger_path (field ''volume'' (sub_fields ?q3))) = Some ledger_43"
    by code_simp
  have m3: "rev (filter (page_span_match ?q3) ledger_43) = [entry 43 1 (Some 9) (Some ''Chap. 1'')]"
    by code_simp
  from explode_candidates[OF s3 l3 r3, of sample_registry no_env] obtain cands3 where
    e3: "explode sample_registry ?w (stat_cite (JStr ''43'') (JStr ''3'')) no_env = Inr cands3"
    and d3: "length (rev (filter (page_span_match ?q3) ledger_43)) = 1 \<longrightarrow>
             map disambiguation cands3 = [None]"
    by (elim exE conjE) simp
  have d3': "map disambiguation cands3 = [None]" using d3 unfolding m3 by simp
  have x: "\<exists>cands. explode sample_registry ?w (stat_cite (JStr ''43'') (JStr ''6'')) no_env = Inr cands
        \<and> map citation cands = [JStr ''43 Stat. 6'', JStr ''43 Stat. 5'', JStr ''43 Stat. 1'']
        \<and> map disambiguation cands
            = [Some (JStr ''Chap. 3''), Some (JStr ''Chap. 2''), Some (JStr ''Chap. 1'')]"
    using e c' d' by (intro exI[of _ cands]) simp
  have x3: "\<exists>cands. explode sample_registry ?w (stat_cite (JStr ''43'') (JStr ''3'')) no_env = Inr cands
        \<and> map disambiguation cands = [None]"
    using e3 d3' by (intro exI[of _ cands3]) simp
  show ?thesis by (intro conjI s l r o x p' x3)
qed

text \<open>
  The claim C4 itself fails in two places.  Two rows claim page 6 and carry an empty note
  and no note: the candidates' disambiguation fields are \<^verbatim>\<open>undefined\<close> and the empty
  string.  And when a row that starts on the page is listed before a row that spans it, the
  reversed list puts the spanning row's candidate first.
\<close>

theorem explode_candidates_counterexample:
  "length (collect_matches query_43_6 blank_ledger []) = 2
   \<and> (case explode sample_registry (offline_world [(volume_43, blank_ledger)])
              (stat_cite (JStr ''43'') (JStr ''6'')) no_env of
         Inl err \<Rightarrow> [] | Inr cands \<Rightarrow> map disambiguation cands)
       = [Some JUndefined, Some (JStr [])]
   \<and> map (is_start_page query_43_6) unordered_ledger = [True, False]
   \<and> (case explode sample_registry (offline_world [(volume_43, unordered_ledger)])
              (stat_cite (JStr ''43'') (JStr ''6'')) no_env of
         Inl err \<Rightarrow> [] | Inr cands \<Rightarrow> map citation cands)
       = [JStr ''43 Stat. 1'', JStr ''43 Stat. 6'']"
  by code_simp

lemma publaw_identity:
  "item_congress item = Some n \<Longrightarrow> n \<ge> 38 \<Longrightarrow> item_type item = Some ''publaw'' \<Longrightarrow>
   js_ge (opt_num (item_congress item)) 38 \<and> js_eq_string (opt_str (item_type item)) ''publaw''"
  by (simp add: js_ge_def opt_num_def opt_str_def)

lemma candidate_public_law:
  assumes "item_congress item = Some n" and "n \<ge> 38" and "item_type item = Some ''publaw''"
  shows "\<exists>cc. parallel_citations (make_candidate reg st k item) = Some [cc]
            \<and> cite_type cc = ''law''
            \<and> payload ''law'' ''congress'' cc = JNum n
            \<and> payload ''law'' ''type'' cc = JStr ''public''
            \<and> payload ''law'' ''number'' cc = opt_num (item_number item)
            \<and> title cc = title (make_candidate reg st k item)"
  using publaw_identity[OF assms] assms(1)
  by (simp add: parallel_make_candidate title_make_candidate field_def opt_num_def)

text \<open>
  C5.  The specification's example: for the statute citation of volume 43, page 1 and a
  ledger holding the entry of public law 67-1 (43 Stat. 1, 50 pages), \<open>explode\<close> returns
  one candidate, whose citation string is ``43 Stat. 1'' and which carries the parallel law
  citation of congress 67, number 1.  In general every candidate of a matched entry with
  \<open>congress \<ge> 38\<close> and type \<open>publaw\<close> carries exactly one nested parallel citation: a
  public law with the entry's congress and number and with the candidate's title.
\<close>

theorem explode_public_law:
  "(\<exists>cand cc. explode reg (offline_world [(volume_43, [publaw_67_1])])
                  (stat_cite (JStr ''43'') (JStr ''1'')) e = Inr [cand]
       \<and> citation cand = JStr ''43 Stat. 1''
       \<and> parallel_citations cand = Some [cc]
       \<and> cite_type cc = ''law''
       \<and> payload ''law'' ''congress'' cc = JNum 67
       \<and> payload ''law'' ''type'' cc = JStr ''public''
       \<and> payload ''law'' ''number'' cc = JNum 1
       \<and> title cc = title cand)
   \<and> (map_of (subs c) ''stat'' = Some st \<longrightarrow>
      js_le (field ''volume'' (sub_fields st)) 64 \<longrightarrow>
      read_ledger w (ledger_path (field ''volume'' (sub_fields st))) = Some body \<longrightarrow>
      (\<exists>cands. explode reg w c e = Inr cands
         \<and> list_all2
             (\<lambda>item cand. \<forall>n. item_congress item = Some n \<and> n \<ge> 38
                              \<and> item_type item = Some ''publaw'' \<longrightarrow>
                (\<exists>cc. parallel_citations cand = Some [cc]
                    \<and> cite_type cc = ''law''
                    \<and> payload ''law'' ''congress'' cc = JNum n
                    \<and> payload ''law'' ''type'' cc = JStr ''public''
                    \<and> payload ''law'' ''number'' cc = opt_num (item_number item)
                    \<and> title cc = title cand))
             (rev (filter (page_span_match st) body)) cands))"
proof (intro conjI impI)
  let ?w = "offline_world [(volume_43, [publaw_67_1])]"
  let ?st = "\<lparr>sub_fields = [(''volume'', JStr ''43''), (''page'', JStr ''1'')],
              sub_id = ''stat/43/1'', sub_links = Some []\<rparr>"
  have s: "map_of (subs (stat_cite (JStr ''43'') (JStr ''1''))) ''stat'' = Some ?st" by code_simp
  have l: "js_le (field ''volume'' (sub_fields ?st)) 64" by code_simp
  have r: "read_ledger ?w (ledger_path (field ''volume'' (sub_fields ?st))) = Some [publaw_67_1]"
    by code_simp
  have m: "filter (page_span_match ?st) [publaw_67_1] = [publaw_67_1]" by code_simp
  have x: "explode reg ?w (stat_cite (JStr ''43'') (JStr ''1'')) e
             = Inr [make_candidate reg ?st 1 publaw_67_1]"
    using explode_eq[OF s l r, of reg e] unfolding m by simp
  have ci: "int_to_string (item_volume publaw_67_1) @ '' Stat. '' @ int_to_string (item_page publaw_67_1)
              = ''43 Stat. 1''" by code_simp
  have i: "item_congress publaw_67_1 = Some 67" "(67::int) \<ge> 38" "item_type publaw_67_1 = Some ''publaw''"
    "opt_num (item_number publaw_67_1) = JNum 1"
    by (simp_all add: publaw_67_1_def opt_num_def)
  from candidate_public_law[OF i(1-3), of reg ?st 1] obtain cc where
    cc: "parallel_citations (make_candidate reg ?st 1 publaw_67_1) = Some [cc]"
      "cite_type cc = ''law''" "payload ''law'' ''congress'' cc = JNum 67"
      "payload ''law'' ''type'' cc = JStr ''public''"
      "payload ''law'' ''number'' cc = JNum 1"
      "title cc = title (make_candidate reg ?st 1 publaw_67_1)"
    unfolding i(4) by (elim exE conjE)
  have "citation (make_candidate reg ?st 1 publaw_67_1) = JStr ''43 Stat. 1''"
    unfolding citation_make_candidate ci ..
  with x cc show "\<exists>cand cc. explode reg ?w (stat_cite (JStr ''43'') (JStr ''1'')) e = Inr [cand]
       \<and> citation cand = JStr ''43 Stat. 1''
       \<and> parallel_citations cand = Some [cc]
       \<and> cite_type cc = ''law''
       \<and> payload ''law'' ''congress'' cc = JNum 67
       \<and> payload ''law'' ''type'' cc = JStr ''public''
       \<and> payload ''law'' ''number'' cc = JNum 1
       \<and> title cc = title cand"
    by (intro exI[of _ "make_candidate reg ?st 1 publaw_67_1"] exI[of _ cc]) simp
next
  assume a: "map_of (subs c) ''stat'' = Some st"
    "js_le (field ''volume'' (sub_fields st)) 64"
    "read_ledger w (ledger_path (field ''volume'' (sub_fields st))) = Some body"
  let ?ms = "rev (filter (page_span_match st) body)"
  let ?k = "length (filter (page_span_match st) body)"
  have "explode reg w c e = Inr (map (make_candidate reg st ?k) ?ms)"
    by (rule explode_eq[OF a])
  moreover have "list_all2
             (\<lambda>item cand. \<forall>n. item_congress item = Some n \<and> n \<ge> 38
                              \<and> item_type item = Some ''publaw'' \<longrightarrow>
                (\<exists>cc. parallel_citations cand = Some [cc]
                    \<and> cite_type cc = ''law''
                    \<and> payload ''law'' ''congress'' cc = JNum n
                    \<and> payload ''law'' ''type'' cc = JStr ''public''
                    \<and> payload ''law'' ''number'' cc = opt_num (item_number item)
                    \<and> title cc = title cand))
             ?ms (map (make_candidate reg st ?k) ?ms)"
    unfolding list_all2_map2 list_all2_same using candidate_public_law by blast
  ultimately show "\<exists>cands. explode reg w c e = Inr cands
         \<and> list_all2
             (\<lambda>item cand. \<forall>n. item_congress item = Some n \<and> n \<ge> 38
                              \<and> item_type item = Some ''publaw'' \<longrightarrow>
                (\<exists>cc. parallel_citations cand = Some [cc]
                    \<and> cite_type cc = ''law''
                    \<and> payload ''law'' ''congress'' cc = JNum n
                    \<and> payload ''law'' ''type'' cc = JStr ''public''
                    \<and> payload ''law'' ''number'' cc = opt_num (item_number item)
                    \<and> title cc = title cand))
             (rev (filter (page_span_match st) body)) cands"
    by blast
qed

theorem explode_public_law_witness:
  "map_of (subs (stat_cite (JNum 45) (JNum 12))) ''stat''
     = Some \<lparr>sub_fields = [(''volume'', JNum 45), (''page'', JNum 12)],
             sub_id = ''stat/45/12'', sub_links = Some []\<rparr>
   \<and> js_le (JNum 45) 64
   \<and> read_ledger (offline_world [(volume_45, [publaw_70_12])]) (ledger_path (JNum 45))
       = Some [publaw_70_12]
   \<and> (\<exists>cand cc. explode sample_registry (offline_world [(volume_45, [publaw_70_12])])
                     (stat_cite (JNum 45) (JNum 12)) no_env = Inr [cand]
         \<and> parallel_citations cand = Some [cc]
         \<and> cite_type cc = ''law''
         \<and> payload ''law'' ''congress'' cc = JNum 70
         \<and> payload ''law'' ''number'' cc = JNum 12
         \<and> title cc = title cand)"
proof -
  let ?w = "offline_world [(volume_45, [publaw_70_12])]"
  let ?st = "\<lparr>sub_fields = [(''volume'', JNum 45), (''page'', JNum 12)],
              sub_id = ''stat/45/12'', sub_links = Some []\<rparr>"
  have s: "map_of (subs (stat_cite (JNum 45) (JNum 12))) ''stat'' = Some ?st" by code_simp
  have l0: "js_le (JNum 45) 64" by code_simp
  have r0: "read_ledger ?w (ledger_path (JNum 45)) = Some [publaw_70_12]" by code_simp
  have l: "js_le (field ''volume'' (sub_fields ?st)) 64" by code_simp
  have r: "read_ledger ?w (ledger_path (field ''volume'' (sub_fields ?st))) = Some [publaw_70_12]"
    by code_simp
  have m: "rev (filter (page_span_match ?st) [publaw_70_12]) = [publaw_70_12]" by code_simp
  have i: "item_congress publaw_70_12 = Some 70" "item_type publaw_70_12 = Some ''publaw''"
    "opt_num (item_number publaw_70_12) = JNum 12"
    by (simp_all add: publaw_70_12_def opt_num_def)
  from explode_public_law[of sample_registry no_env "stat_cite (JNum 45) (JNum 12)" ?st ?w "[publaw_70_12]"]
  have "\<exists>cands. explode sample_registry ?w (stat_cite (JNum 45) (JNum 12)) no_env = Inr cands
         \<and> list_all2
             (\<lambda>item cand. \<forall>n. item_congress item = Some n \<and> n \<ge> 38
                              \<and> item_type item = Some ''publaw'' \<longrightarrow>
                (\<exists>cc. parallel_citations cand = Some [cc]
                    \<and> cite_type cc = ''law''
                    \<and> payload ''law'' ''congress'' cc = JNum n
                    \<and> payload ''law'' ''type'' cc = JStr ''public''
                    \<and> payload ''law'' ''number'' cc = opt_num (item_number item)
                    \<and> title cc = title cand))
             (rev (filter (page_span_match ?st) [publaw_70_12])) cands"
    using s l r by blast
  then obtain cand where
    e: "explode sample_registry ?w (stat_cite (JNum 45) (JNum 12)) no_env = Inr [cand]"
    and p: "\<forall>n. item_congress publaw_70_12 = Some n \<and> n \<ge> 38
                  \<and> item_type publaw_70_12 = Some ''publaw'' \<longrightarrow>
                (\<exists>cc. parallel_citations cand = Some [cc]
                    \<and> cite_type cc = ''law''
                    \<and> payload ''law'' ''congress'' cc = JNum n
                    \<and> payload ''law'' ''type'' cc = JStr ''public''
                    \<and> payload ''law'' ''number'' cc = opt_num (item_number publaw_70_12)
                    \<and> title cc = title cand)"
    unfolding m by (auto simp: list_all2_Cons1)
  from p i obtain cc where
    "parallel_citations cand = Some [cc]" "cite_type cc = ''law''"
    "payload ''law'' ''congress'' cc = JNum 70" "payload ''law'' ''number'' cc = JNum 12"
    "title cc = title cand"
    by fastforce
  with e have x: "\<exists>cand cc. explode sample_registry ?w (stat_cite (JNum 45) (JNum 12)) no_env = Inr [cand]
         \<and> parallel_citations cand = Some [cc]
         \<and> cite_type cc = ''law''
         \<and> payload ''law'' ''congress'' cc = JNum 70
         \<and> payload ''law'' ''number'' cc = JNum 12
         \<and> title cc = title cand"
    by (intro exI[of _ cand] exI[of _ cc]) simp
  show ?thesis by (intro conjI s l0 r0 x)
qed

section \<open>The metadata-document resolver: deduplication\<close>

lemma title_block_frame [simp]:
  "ms_cites (title_block x st) = ms_cites st"
  "ms_seen (title_block x st) = ms_seen st"
  "cite_type (ms_cite (title_block x st)) = cite_type (ms_cite st)"
  by (auto simp: title_block_def split: option.splits xml_text.splits)

lemma cite_type_law_cite [simp]: "cite_type (law_cite reg elem) = ''law''"
  by (simp add: law_cite_def)

lemma cite_type_bill_cite [simp]: "cite_type (bill_cite reg elem ty) = ''us_bill''"
  by (simp add: bill_cite_def)

lemma seen_once_title_block [simp]: "seen_once x (title_block ext st) = seen_once x st"
  by (simp add: seen_once_def)

lemma law_block_step:
  assumes "seen_once x st" and "law_block reg ext st = Inr r"
  shows "seen_once x (flow_state r)
       \<and> set (ms_seen st) \<subseteq> set (ms_seen (flow_state r))
       \<and> ms_cite (flow_state r) = ms_cite st
       \<and> (\<forall>elem. ext_law ext = Some (Attrs elem) \<and> sub_id_of ''law'' (law_cite reg elem) = x
             \<longrightarrow> x \<in> set (ms_seen (flow_state r)))"
  using assms
  by (auto simp: law_block_def flow_state_def Let_def seen_once_def cites_with_id_def
      split: option.splits if_splits xml_element.splits)

lemma law_block_total:
  assumes "ext_law ext \<noteq> Some NoAttrs"
  shows "\<exists>r. law_block reg ext st = Inr r"
  using assms by (auto simp: law_block_def Let_def split: option.splits xml_element.splits)

lemma bill_block_step:
  assumes "seen_once x st"
    and "\<forall>elem ty. ext_bill ext = Some (Attrs elem) \<and> map_of elem ''type'' = Some ty
           \<longrightarrow> sub_id_of ''us_bill'' (bill_cite reg elem ty) \<noteq> x"
    and "bill_block reg ext st = Inr r"
  shows "seen_once x (flow_state r)
       \<and> set (ms_seen st) \<subseteq> set (ms_seen (flow_state r))
       \<and> ms_cite (flow_state r) = ms_cite st"
  using assms
  by (auto simp: bill_block_def flow_state_def Let_def seen_once_def cites_with_id_def
      split: option.splits if_splits xml_element.splits)

lemma bill_block_total:
  assumes "case ext_bill ext of
             None \<Rightarrow> True
           | Some NoAttrs \<Rightarrow> False
           | Some (Attrs elem) \<Rightarrow>
               js_eq_string (attr ''priority'' elem) ''primary'' \<longrightarrow> map_of elem ''type'' \<noteq> None"
  shows "\<exists>r. bill_block reg ext st = Inr r"
  using assms by (auto simp: bill_block_def Let_def split: option.splits xml_element.splits)

lemma process_extension_total:
  assumes "ext_law ext \<noteq> Some NoAttrs"
    and "case ext_bill ext of
             None \<Rightarrow> True
           | Some NoAttrs \<Rightarrow> False
           | Some (Attrs elem) \<Rightarrow>
               js_eq_string (attr ''priority'' elem) ''primary'' \<longrightarrow> map_of elem ''type'' \<noteq> None"
  shows "\<exists>st1. process_extension reg ext st = Inr st1"
proof (cases "cite_type (ms_cite st) = ''stat'' \<or> cite_type (ms_cite st) = ''law''")
  case False
  then show ?thesis by (simp add: process_extension_def)
next
  case True
  from law_block_total[OF assms(1), of reg st] obtain r where r: "law_block reg ext st = Inr r" ..
  show ?thesis
  proof (cases r)
    case (Returned s)
    with True r show ?thesis by (simp add: process_extension_def)
  next
    case (Continue s)
    from bill_block_total[OF assms(2), of reg s] obtain r2 where "bill_block reg ext s = Inr r2" ..
    with True Continue r show ?thesis
      by (cases r2) (simp_all add: process_extension_def)
  qed
qed

lemma process_extension_step:
  assumes inv: "seen_once x st"
    and nb: "\<forall>elem ty. ext_bill ext = Some (Attrs elem) \<and> map_of elem ''type'' = Some ty
           \<longrightarrow> sub_id_of ''us_bill'' (bill_cite reg elem ty) \<noteq> x"
    and run: "process_extension reg ext st = Inr st1"
  shows "seen_once x st1
       \<and> set (ms_seen st) \<subseteq> set (ms_seen st1)
       \<and> cite_type (ms_cite st1) = cite_type (ms_cite st)
       \<and> ((cite_type (ms_cite st) = ''stat'' \<or> cite_type (ms_cite st) = ''law'')
            \<and> (\<exists>elem. ext_law ext = Some (Attrs elem) \<and> sub_id_of ''law'' (law_cite reg elem) = x)
           \<longrightarrow> x \<in> set (ms_seen st1))"
proof (cases "cite_type (ms_cite st) = ''stat'' \<or> cite_type (ms_cite st) = ''law''")
  case False
  with run have "st1 = title_block ext st" by (simp add: process_extension_def)
  with inv False show ?thesis by simp
next
  case True
  from run True obtain r where r: "law_block reg ext st = Inr r"
    by (auto simp: process_extension_def split: sum.splits)
  note L = law_block_step[OF inv r]
  show ?thesis
  proof (cases r)
    case (Returned s)
    with True run r have "st1 = s" by (simp add: process_extension_def)
    with L Returned show ?thesis by (simp add: flow_state_def)
  next
    case (Continue s)
    with L have s: "seen_once x s" "set (ms_seen st) \<subseteq> set (ms_seen s)" "ms_cite s = ms_cite st"
      "\<forall>elem. ext_law ext = Some (Attrs elem) \<and> sub_id_of ''law'' (law_cite reg elem) = x
             \<longrightarrow> x \<in> set (ms_seen s)"
      by (simp_all add: flow_state_def)
    from run True Continue r obtain r2 where r2: "bill_block reg ext s = Inr r2"
      and st1: "st1 = (case r2 of Returned s2 \<Rightarrow> s2 | Continue s2 \<Rightarrow> title_block ext s2)"
      by (auto simp: process_extension_def split: sum.splits flow.splits)
    note B = bill_block_step[OF s(1) nb r2]
    have "seen_once x st1 \<and> set (ms_seen st1) = set (ms_seen (flow_state r2))
          \<and> cite_type (ms_cite st1) = cite_type (ms_cite (flow_state r2))"
      using B st1 by (cases r2) (simp_all add: flow_state_def)
    with B s show ?thesis by auto
  qed
qed

lemma process_extensions_inv:
  assumes "seen_once x st"
    and "x \<notin> set (bill_ids reg extensions)"
    and "elements_well_formed extensions"
  shows "\<exists>st1. process_extensions reg extensions st = Inr st1
        \<and> seen_once x st1
        \<and> set (ms_seen st) \<subseteq> set (ms_seen st1)
        \<and> ((cite_type (ms_cite st) = ''stat'' \<or> cite_type (ms_cite st) = ''law'')
             \<and> x \<in> set (law_ids reg extensions) \<longrightarrow> x \<in> set (ms_seen st1))"
  using assms
proof (induction extensions arbitrary: st)
  case Nil
  then show ?case by (simp add: law_ids_def)
next
  case (Cons ext rest)
  from Cons.prems(3) have wl: "ext_law ext \<noteq> Some NoAttrs"
    and wb: "case ext_bill ext of
             None \<Rightarrow> True
           | Some NoAttrs \<Rightarrow> False
           | Some (Attrs elem) \<Rightarrow>
               js_eq_string (attr ''priority'' elem) ''primary'' \<longrightarrow> map_of elem ''type'' \<noteq> None"
    and w_rest: "elements_well_formed rest"
    by (simp_all add: elements_well_formed_def)
  from Cons.prems(2) have nb: "\<forall>elem ty. ext_bill ext = Some (Attrs elem) \<and> map_of elem ''type'' = Some ty
           \<longrightarrow> sub_id_of ''us_bill'' (bill_cite reg elem ty) \<noteq> x"
    and nb_rest: "x \<notin> set (bill_ids reg rest)"
    by (auto simp: bill_ids_def)
  from process_extension_total[OF wl wb, of reg st] obtain st1 where
    run: "process_extension reg ext st = Inr st1" ..
  note S = process_extension_step[OF Cons.prems(1) nb run]
  from S have inv1: "seen_once x st1" by simp
  from Cons.IH[OF inv1 nb_rest w_rest] obtain st2 where
    st2: "process_extensions reg rest st1 = Inr st2" "seen_once x st2"
      "set (ms_seen st1) \<subseteq> set (ms_seen st2)"
      "(cite_type (ms_cite st1) = ''stat'' \<or> cite_type (ms_cite st1) = ''law'')
             \<and> x \<in> set (law_ids reg rest) \<longrightarrow> x \<in> set (ms_seen st2)"
    by blast
  have "set (law_ids reg (ext # rest))
          = {i. \<exists>elem. ext_law ext = Some (Attrs elem) \<and> i = sub_id_of ''law'' (law_cite reg elem)}
            \<union> set (law_ids reg rest)"
  proof (cases "ext_law ext")
    case None
    then show ?thesis by (simp add: law_ids_def)
  next
    case (Some el)
    then show ?thesis by (cases el) (auto simp: law_ids_def)
  qed
  with S st2 run show ?case by auto
qed

text \<open>On a citation of another type only the titles are read.\<close>

lemma process_extensions_other_type:
  assumes "cite_type (ms_cite st) \<noteq> ''stat''" and "cite_type (ms_cite st) \<noteq> ''law''"
  shows "\<exists>st1. process_extensions reg extensions st = Inr st1 \<and> ms_cites st1 = ms_cites st"
  using assms
proof (induction extensions arbitrary: st)
  case Nil
  then show ?case by simp
next
  case (Cons ext rest)
  have run: "process_extension reg ext st = Inr (title_block ext st)"
    using Cons.prems by (simp add: process_extension_def)
  from Cons.IH[of "title_block ext st"] Cons.prems obtain st1 where
    "process_extensions reg rest (title_block ext st) = Inr st1"
    "ms_cites st1 = ms_cites (title_block ext st)"
    by auto
  with run show ?case by simp
qed

section \<open>Properties of the metadata-document resolver\<close>

text \<open>
  C6, as the code has it.  Take a metadata document whose \<open>law\<close> and \<open>bill\<close> elements carry
  attributes (and whose primary bill elements carry a type attribute).  For a citation of
  type \<open>stat\<close> or \<open>law\<close>, if its blocks contain one or more law references with the computed
  identity \<open>x\<close> and no bill reference shares that identity, the metadata-document resolver
  returns exactly one new law citation with the identity \<open>x\<close>: the repetitions are dropped.
  For a citation of any other type the resolver returns no new citation at all, whatever the
  document holds.
\<close>

theorem mods_law_deduplicated:
  assumes "get_mods w url = ModsDocument (Some extensions)"
  shows "((cite_type c = ''stat'' \<or> cite_type c = ''law'')
           \<and> elements_well_formed extensions
           \<and> x \<in> set (law_ids reg extensions)
           \<and> x \<notin> set (bill_ids reg extensions)
          \<longrightarrow> (\<exists>c1 cites. get_from_usgpo_mods reg w c url = Inr (c1, cites)
                 \<and> length (cites_with_id ''law'' x cites) = 1))
       \<and> (cite_type c \<noteq> ''stat'' \<and> cite_type c \<noteq> ''law''
          \<longrightarrow> (\<exists>c1. get_from_usgpo_mods reg w c url = Inr (c1, [])))"
proof (intro conjI impI)
  let ?st = "\<lparr>ms_cites = [], ms_seen = [], ms_cite = c\<rparr>"
  assume a: "(cite_type c = ''stat'' \<or> cite_type c = ''law'')
           \<and> elements_well_formed extensions
           \<and> x \<in> set (law_ids reg extensions)
           \<and> x \<notin> set (bill_ids reg extensions)"
  have i0: "seen_once x ?st" by (simp add: seen_once_def cites_with_id_def)
  from a have nb: "x \<notin> set (bill_ids reg extensions)" and wf: "elements_well_formed extensions"
    by simp_all
  from process_extensions_inv[OF i0 nb wf] obtain st1 where
    r: "process_extensions reg extensions ?st = Inr st1" and i: "seen_once x st1"
    and s: "(cite_type (ms_cite ?st) = ''stat'' \<or> cite_type (ms_cite ?st) = ''law'')
             \<and> x \<in> set (law_ids reg extensions) \<longrightarrow> x \<in> set (ms_seen st1)"
    by blast
  from s a have "x \<in> set (ms_seen st1)" by simp
  with i have "length (cites_with_id ''law'' x (ms_cites st1)) = 1" by (simp add: seen_once_def)
  moreover have "get_from_usgpo_mods reg w c url = Inr (ms_cite st1, ms_cites st1)"
    using assms r by (simp add: get_from_usgpo_mods_def)
  ultimately show "\<exists>c1 cites. get_from_usgpo_mods reg w c url = Inr (c1, cites)
                 \<and> length (cites_with_id ''law'' x cites) = 1"
    by blast
next
  let ?st = "\<lparr>ms_cites = [], ms_seen = [], ms_cite = c\<rparr>"
  assume b: "cite_type c \<noteq> ''stat'' \<and> cite_type c \<noteq> ''law''"
  then have "cite_type (ms_cite ?st) \<noteq> ''stat''" "cite_type (ms_cite ?st) \<noteq> ''law''" by simp_all
  from process_extensions_other_type[OF this, of reg extensions] obtain st1 where
    "process_extensions reg extensions ?st = Inr st1" "ms_cites st1 = []"
    by auto
  then have "get_from_usgpo_mods reg w c url = Inr (ms_cite st1, [])"
    using assms by (simp add: get_from_usgpo_mods_def)
  then show "\<exists>c1. get_from_usgpo_mods reg w c url = Inr (c1, [])" by blast
qed

theorem mods_law_deduplicated_witness:
  "get_mods (mods_world [ext_first, ext_repeat]) (Some mods_url)
       = ModsDocument (Some [ext_first, ext_repeat])
   \<and> cite_type (stat_cite (JStr ''42'') (JStr ''5'')) = ''stat''
   \<and> elements_well_formed [ext_first, ext_repeat]
   \<and> law_ids sample_registry [ext_first, ext_repeat] = [''law/67/public/1'', ''law/67/public/1'']
   \<and> bill_ids sample_registry [ext_first, ext_repeat] = [''us_bill/true/67/hr/2'']
   \<and> (\<exists>c1 cites. get_from_usgpo_mods sample_registry (mods_world [ext_first, ext_repeat])
                     (stat_cite (JStr ''42'') (JStr ''5'')) (Some mods_url) = Inr (c1, cites)
          \<and> length (cites_with_id ''law'' ''law/67/public/1'' cites) = 1)
   \<and> cite_type cfr_cite = ''cfr''
   \<and> (\<exists>c1. get_from_usgpo_mods sample_registry (mods_world [ext_first, ext_repeat])
               cfr_cite (Some mods_url) = Inr (c1, []))"
proof -
  have g: "get_mods (mods_world [ext_first, ext_repeat]) (Some mods_url)
             = ModsDocument (Some [ext_first, ext_repeat])" by code_simp
  have t: "cite_type (stat_cite (JStr ''42'') (JStr ''5'')) = ''stat''" by code_simp
  have b: "elements_well_formed [ext_first, ext_repeat]" by code_simp
  have l: "law_ids sample_registry [ext_first, ext_repeat] = [''law/67/public/1'', ''law/67/public/1'']"
    by code_simp
  have n: "bill_ids sample_registry [ext_first, ext_repeat] = [''us_bill/true/67/hr/2'']"
    by code_simp
  have l1: "''law/67/public/1'' \<in> set (law_ids sample_registry [ext_first, ext_repeat])"
    unfolding l by simp
  have n1: "''law/67/public/1'' \<notin> set (bill_ids sample_registry [ext_first, ext_repeat])"
    unfolding n by simp
  have k: "cite_type cfr_cite = ''cfr''" by code_simp
  have x: "\<exists>c1 cites. get_from_usgpo_mods sample_registry (mods_world [ext_first, ext_repeat])
                     (stat_cite (JStr ''42'') (JStr ''5'')) (Some mods_url) = Inr (c1, cites)
          \<and> length (cites_with_id ''law'' ''law/67/public/1'' cites) = 1"
    using mods_law_deduplicated[OF g, of "stat_cite (JStr ''42'') (JStr ''5'')"
        "''law/67/public/1''" sample_registry] t b l1 n1
    by blast
  have y: "\<exists>c1. get_from_usgpo_mods sample_registry (mods_world [ext_first, ext_repeat])
               cfr_cite (Some mods_url) = Inr (c1, [])"
    using mods_law_deduplicated[OF g, of cfr_cite "''law/67/public/1''" sample_registry] k
    by simp
  show ?thesis by (intro conjI g t b l n x k y)
qed

text \<open>
  The claim C6 itself fails.  On a regulation citation the document with its two identical
  law references yields no law citation at all (only the title is taken).  And on a
  statute citation a further \<open>law\<close> element without attributes makes the callback throw, so
  that nothing is returned.
\<close>

theorem mods_law_deduplicated_counterexample:
  "law_ids sample_registry [ext_first, ext_repeat] = [''law/67/public/1'', ''law/67/public/1'']
   \<and> get_from_usgpo_mods sample_registry (mods_world [ext_first, ext_repeat]) cfr_cite (Some mods_url)
       = Inr (set_title (JStr ''An Act'') cfr_cite, [])
   \<and> law_ids sample_registry [ext_first, ext_repeat, ext_bare]
       = [''law/67/public/1'', ''law/67/public/1'']
   \<and> get_from_usgpo_mods sample_registry (mods_world [ext_first, ext_repeat, ext_bare])
        (stat_cite (JStr ''42'') (JStr ''5'')) (Some mods_url)
       = Inl TypeError"
  by code_simp

text \<open>
  C10.  In the metadata-document resolver, on a citation of type \<open>stat\<close> or \<open>law\<close>, a block
  whose law reference has an identity already seen in this fetch leaves the state of the
  loop as it was: its bill reference and its titles are not extracted.  Likewise a block
  whose primary bill reference has an identity already seen keeps what its law reference
  added but takes no title.  So a repeated law reference suppresses a title and a distinct
  bill citation carried in the same block: with the repetition the document below yields one
  law citation and no title, without it the law, the bill and the title.
\<close>

theorem duplicate_reference_stops_block:
  "(get_from_usgpo_mods sample_registry (mods_world [ext_first, ext_repeat])
       (stat_cite (JStr ''42'') (JStr ''5'')) (Some mods_url)
      = Inr (stat_cite (JStr ''42'') (JStr ''5''), [law_cite sample_registry law_ref_67_1])
    \<and> get_from_usgpo_mods sample_registry (mods_world [ext_first, ext_plain])
         (stat_cite (JStr ''42'') (JStr ''5'')) (Some mods_url)
        = Inr (set_title (JStr ''An Act'') (stat_cite (JStr ''42'') (JStr ''5'')),
               [law_cite sample_registry law_ref_67_1, bill_cite sample_registry bill_ref_hr_2 ''HR'']))
   \<and> (cite_type (ms_cite st) = ''stat'' \<or> cite_type (ms_cite st) = ''law'' \<longrightarrow>
        (\<forall>elem. ext_law ext = Some (Attrs elem)
            \<and> sub_id_of ''law'' (law_cite reg elem) \<in> set (ms_seen st)
           \<longrightarrow> process_extension reg ext st = Inr st)
      \<and> (\<forall>elem ty st1. law_block reg ext st = Inr (Continue st1)
            \<and> ext_bill ext = Some (Attrs elem)
            \<and> js_eq_string (attr ''priority'' elem) ''primary''
            \<and> map_of elem ''type'' = Some ty
            \<and> sub_id_of ''us_bill'' (bill_cite reg elem ty) \<in> set (ms_seen st1)
           \<longrightarrow> process_extension reg ext st = Inr st1 \<and> ms_cite st1 = ms_cite st))"
proof (intro conjI impI allI)
  show "get_from_usgpo_mods sample_registry (mods_world [ext_first, ext_repeat])
       (stat_cite (JStr ''42'') (JStr ''5'')) (Some mods_url)
      = Inr (stat_cite (JStr ''42'') (JStr ''5''), [law_cite sample_registry law_ref_67_1])"
    by code_simp
  show "get_from_usgpo_mods sample_registry (mods_world [ext_first, ext_plain])
         (stat_cite (JStr ''42'') (JStr ''5'')) (Some mods_url)
        = Inr (set_title (JStr ''An Act'') (stat_cite (JStr ''42'') (JStr ''5'')),
               [law_cite sample_registry law_ref_67_1, bill_cite sample_registry bill_ref_hr_2 ''HR''])"
    by code_simp
next
  fix elem
  assume "cite_type (ms_cite st) = ''stat'' \<or> cite_type (ms_cite st) = ''law''"
    and "ext_law ext = Some (Attrs elem) \<and> sub_id_of ''law'' (law_cite reg elem) \<in> set (ms_seen st)"
  then show "process_extension reg ext st = Inr st"
    by (simp add: process_extension_def law_block_def Let_def)
next
  fix elem ty st1
  assume t: "cite_type (ms_cite st) = ''stat'' \<or> cite_type (ms_cite st) = ''law''"
    and a: "law_block reg ext st = Inr (Continue st1)
            \<and> ext_bill ext = Some (Attrs elem)
            \<and> js_eq_string (attr ''priority'' elem) ''primary''
            \<and> map_of elem ''type'' = Some ty
            \<and> sub_id_of ''us_bill'' (bill_cite reg elem ty) \<in> set (ms_seen st1)"
  then show "process_extension reg ext st = Inr st1"
    by (simp add: process_extension_def bill_block_def Let_def)
  from a show "ms_cite st1 = ms_cite st"
    by (auto simp: law_block_def Let_def split: option.splits if_splits xml_element.splits)
qed

theorem duplicate_reference_stops_block_witness:
  "cite_type (ms_cite state_after_first) = ''stat''
   \<and> ext_law ext_repeat = Some (Attrs law_ref_67_1)
   \<and> sub_id_of ''law'' (law_cite sample_registry law_ref_67_1) \<in> set (ms_seen state_after_first)
   \<and> process_extension sample_registry ext_repeat state_after_first = Inr state_after_first
   \<and> law_block sample_registry ext_plain state_after_bill = Inr (Continue state_after_bill)
   \<and> ext_bill ext_plain = Some (Attrs bill_ref_hr_2)
   \<and> js_eq_string (attr ''priority'' bill_ref_hr_2) ''primary''
   \<and> map_of bill_ref_hr_2 ''type'' = Some ''HR''
   \<and> sub_id_of ''us_bill'' (bill_cite sample_registry bill_ref_hr_2 ''HR'') \<in> set (ms_seen state_after_bill)
   \<and> process_extension sample_registry ext_plain state_after_bill = Inr state_after_bill"
proof -
  have t: "cite_type (ms_cite state_after_first) = ''stat''" by code_simp
  have l: "ext_law ext_repeat = Some (Attrs law_ref_67_1)" by code_simp
  have s: "sub_id_of ''law'' (law_cite sample_registry law_ref_67_1) \<in> set (ms_seen state_after_first)"
    by code_simp
  have p: "process_extension sample_registry ext_repeat state_after_first = Inr state_after_first"
    using duplicate_reference_stops_block[of state_after_first ext_repeat sample_registry] t l s
    by blast
  have t2: "cite_type (ms_cite state_after_bill) = ''stat''" by code_simp
  have b1: "law_block sample_registry ext_plain state_after_bill = Inr (Continue state_after_bill)"
    by code_simp
  have b2: "ext_bill ext_plain = Some (Attrs bill_ref_hr_2)" by code_simp
  have b3: "js_eq_string (attr ''priority'' bill_ref_hr_2) ''primary''" by code_simp
  have b4: "map_of bill_ref_hr_2 ''type'' = Some ''HR''" by code_simp
  have b5: "sub_id_of ''us_bill'' (bill_cite sample_registry bill_ref_hr_2 ''HR'')
              \<in> set (ms_seen state_after_bill)" by code_simp
  have q: "process_extension sample_registry ext_plain state_after_bill = Inr state_after_bill"
    using duplicate_reference_stops_block[of state_after_bill ext_plain sample_registry]
      t2 b1 b2 b3 b4 b5
    by blast
  show ?thesis by (intro conjI t l s p b1 b2 b3 b4 b5 q)
qed

section \<open>Properties of the case-search resolver\<close>





section \<open>Properties of the ledger cross-reference resolver\<close>





section \<open>Properties of add_parallel_citations\<close>









text \<open>
  C2 does not hold of the code.  When the request of the US Code fetcher fails in
  transport, \<^verbatim>\<open>response\<close> is undefined and reading \<^verbatim>\<open>response.statusCode\<close> throws: no
  result is delivered, neither an empty contribution of this fetcher nor the statute
  citation that the law fetcher has found for the same citation.  With the server answering
  200 the same citation is resolved and the law fetcher's citation is returned.
\<close>

theorem usc_transport_error_escapes:
  "get_status (offline_world [(volume_45, [publaw_70_12])])
      ''https://uscode.house.gov/view.xhtml?req=(title:5%20section:552-1%20edition:prelim)'' = None
   \<and> add_parallel_citations sample_registry (offline_world []) usc_cite no_env = Inl TypeError
   \<and> add_parallel_citations sample_registry (offline_world [(volume_45, [publaw_70_12])])
        law_and_usc no_env = Inl TypeError
   \<and> (case add_parallel_citations sample_registry
             ((offline_world [(volume_45, [publaw_70_12])])\<lparr>get_status := (\<lambda>u. Some 200)\<rparr>)
             law_and_usc no_env of
         Inl err \<Rightarrow> [] | Inr r \<Rightarrow> map (payload ''stat'' ''page'') (snd r)) = [JNum 12]"
  by code_simp

end
